theory Spec2Isabelle
  imports Complex_Main
begin

section \<open>Zonal statistics of a classified raster (pixel\_counter.py)\<close>

text \<open>
  A shallow embedding of \<^verbatim>\<open>bbox_to_pixel_offsets\<close> and \<^verbatim>\<open>zonal_stats\<close> of
  pixel\_counter.py and of \<^verbatim>\<open>get_nlcd_counts\<close> of pixel\_counter\_functions.py.
  Python floats are read as real numbers (rounding, infinities and NaN are not
  modelled); Python exceptions are values of the type \<open>error\<close>, and a function that can
  raise returns \<open>error + 'a\<close> with \<open>Inl\<close> the exception.
\<close>

subsection \<open>Errors and Python's int on floats\<close>

datatype error =
    AssertionError
  | ZeroDivisionError
  | ValueError
  | AttributeError
  | MaskError
  | KeyError

text \<open>Python's \<^verbatim>\<open>int(x)\<close> on a float drops the fractional part.\<close>

definition py_int :: "real \<Rightarrow> int" where
  "py_int x = (if x < 0 then \<lceil>x\<rceil> else \<lfloor>x\<rfloor>)"

text \<open>Python's float division raises on a zero divisor.\<close>

definition py_div :: "real \<Rightarrow> real \<Rightarrow> error + real" where
  "py_div a b = (if b = 0 then Inl ZeroDivisionError else Inr (a / b))"

text \<open>
  Truncation toward zero as the specification words it: the sign of the argument
  times the integer part of its absolute value.
\<close>

definition spec_trunc :: "real \<Rightarrow> int" where
  "spec_trunc x = (if x < 0 then - 1 else 1) * \<lfloor>\<bar>x\<bar>\<rfloor>"

subsection \<open>Geotransform and the pixel-offset mapper\<close>

text \<open>
  The six coefficients \<^verbatim>\<open>gt[0]\<close> .. \<^verbatim>\<open>gt[5]\<close> of a GDAL geotransform:
  origin x, pixel width, row rotation, origin y, column rotation, pixel height.
\<close>

record geotransform =
  gt0 :: real
  gt1 :: real
  gt2 :: real
  gt3 :: real
  gt4 :: real
  gt5 :: real

text \<open>A bounding box is \<^verbatim>\<open>(minX, maxX, minY, maxY)\<close>, as OGR returns envelopes.\<close>

type_synonym bbox = "real \<times> real \<times> real \<times> real"

text \<open>A pixel window is \<^verbatim>\<open>(x1, y1, xsize, ysize)\<close>.\<close>

type_synonym window = "int \<times> int \<times> int \<times> int"

definition bbox_to_pixel_offsets :: "geotransform \<Rightarrow> bbox \<Rightarrow> error + window" where
  "bbox_to_pixel_offsets gt bbox =
     (case bbox of (b0, b1, b2, b3) \<Rightarrow>
        (let originX = gt0 gt;
             originY = gt3 gt;
             pixel_width = gt1 gt;
             pixel_height = gt5 gt
         in (case py_div (b0 - originX) pixel_width of
               Inl e \<Rightarrow> Inl e
             | Inr q1 \<Rightarrow>
            (let x1 = py_int q1
             in (case py_div (b1 - originX) pixel_width of
                   Inl e \<Rightarrow> Inl e
                 | Inr q2 \<Rightarrow>
            (let x2 = py_int q2 + 1
             in (case py_div (b3 - originY) pixel_height of
                   Inl e \<Rightarrow> Inl e
                 | Inr q3 \<Rightarrow>
            (let y1 = py_int q3
             in (case py_div (b2 - originY) pixel_height of
                   Inl e \<Rightarrow> Inl e
                 | Inr q4 \<Rightarrow>
            (let y2 = py_int q4 + 1;
                 xsize = x2 - x1;
                 ysize = y2 - y1
             in Inr (x1, y1, xsize, ysize)))))))))))"

subsection \<open>Arrays\<close>

text \<open>
  A numpy array is its shape and its cells in row-major order. The size of an array is
  the product of its shape; a zero-dimensional array has shape \<open>[]\<close> and one cell.
\<close>

record 'a ndarray =
  shape :: "nat list"
  buf :: "'a list"

definition asize :: "'a ndarray \<Rightarrow> nat" where
  "asize a = prod_list (shape a)"

text \<open>The cell indices \<^verbatim>\<open>(row, column)\<close> of a two-dimensional array, in row-major order.\<close>

definition cell_indices :: "int \<Rightarrow> int \<Rightarrow> (nat \<times> nat) list" where
  "cell_indices xsize ysize = List.product [0..<nat ysize] [0..<nat xsize]"

subsection \<open>The raster collaborator (GDAL)\<close>

text \<open>
  An opened single-band raster: its geotransform, its size in pixels, the no-data value
  of its band and the value of the pixel at a column and a row.
\<close>

record raster =
  GetGeoTransform :: geotransform
  RasterXSize :: int
  RasterYSize :: int
  NoDataValue :: "real option"
  pixel :: "int \<Rightarrow> int \<Rightarrow> real"

definition SetNoDataValue :: "raster \<Rightarrow> real \<Rightarrow> raster" where
  "SetNoDataValue rb v = rb\<lparr>NoDataValue := Some v\<rparr>"

definition window_in_raster :: "raster \<Rightarrow> window \<Rightarrow> bool" where
  "window_in_raster rb win =
     (case win of (xoff, yoff, win_xsize, win_ysize) \<Rightarrow>
        1 \<le> win_xsize \<and> 1 \<le> win_ysize \<and> 0 \<le> xoff \<and> 0 \<le> yoff \<and>
        xoff + win_xsize \<le> RasterXSize rb \<and> yoff + win_ysize \<le> RasterYSize rb)"

text \<open>
  \<^verbatim>\<open>rb.ReadAsArray(xoff, yoff, win_xsize, win_ysize)\<close> with GDAL's exceptions off, as the
  script runs it: the buffer is allocated by \<^verbatim>\<open>numpy.empty([win_ysize, win_xsize])\<close>,
  which raises ValueError on a negative dimension; RasterIO skips an empty window; a
  window that is not inside the raster is an error, reported as the result \<^verbatim>\<open>None\<close>.
\<close>

definition ReadAsArray :: "raster \<Rightarrow> window \<Rightarrow> error + real ndarray option" where
  "ReadAsArray rb win =
     (case win of (xoff, yoff, win_xsize, win_ysize) \<Rightarrow>
        if win_xsize < 0 \<or> win_ysize < 0 then Inl ValueError
        else if win_xsize < 1 \<or> win_ysize < 1
          then Inr (Some \<lparr>shape = [nat win_ysize, nat win_xsize], buf = []\<rparr>)
        else if xoff < 0 \<or> yoff < 0 \<or> RasterXSize rb < xoff + win_xsize
                \<or> RasterYSize rb < yoff + win_ysize
          then Inr None
        else Inr (Some \<lparr>shape = [nat win_ysize, nat win_xsize],
                         buf = map (\<lambda>(j, i). pixel rb (xoff + int i) (yoff + int j))
                                   (cell_indices win_xsize win_ysize)\<rparr>))"

subsection \<open>The vector collaborator (OGR)\<close>

datatype field_value = FNull | FInt int | FReal real | FStr string

text \<open>
  A row of a layer: its id, the values of the fields that are set and not null, the
  envelope of its geometry and the geometry itself as the set of points it covers.
\<close>

record row =
  GetFID :: int
  attributes :: "string \<Rightarrow> field_value option"
  GetEnvelope :: bbox
  covers :: "real \<Rightarrow> real \<Rightarrow> bool"

text \<open>
  A feature is a row together with the definition of its layer: the names of the fields
  that the layer has. All the features of a layer share it.
\<close>

record feature = row +
  GetDefnRef :: "string list"

text \<open>An opened layer: the names of its fields and its rows in iteration order.\<close>

record layer =
  GetLayerDefn :: "string list"
  rows :: "row list"

definition feature_of :: "string list \<Rightarrow> row \<Rightarrow> feature" where
  "feature_of defn r =
     \<lparr>GetFID = GetFID r, attributes = attributes r, GetEnvelope = GetEnvelope r,
      covers = covers r, GetDefnRef = defn\<rparr>"

text \<open>The features that \<^verbatim>\<open>vlyr.GetNextFeature()\<close> returns, one after the other.\<close>

definition GetFeatures :: "layer \<Rightarrow> feature list" where
  "GetFeatures vlyr = map (feature_of (GetLayerDefn vlyr)) (rows vlyr)"

text \<open>
  \<^verbatim>\<open>feat.GetField(name)\<close> raises KeyError for a field that the layer does not have, and
  returns \<^verbatim>\<open>None\<close> for a field of the layer that is unset or null in this feature.
\<close>

definition GetField :: "feature \<Rightarrow> string \<Rightarrow> error + field_value" where
  "GetField feat name =
     (if name \<in> set (GetDefnRef feat)
      then Inr (case attributes feat name of None \<Rightarrow> FNull | Some v \<Rightarrow> v)
      else Inl KeyError)"

definition merge_envelope :: "bbox \<Rightarrow> feature \<Rightarrow> bbox" where
  "merge_envelope e feat =
     (case e of (minX, maxX, minY, maxY) \<Rightarrow>
       (case GetEnvelope feat of (minX', maxX', minY', maxY') \<Rightarrow>
          (min minX minX', max maxX maxX', min minY minY', max maxY maxY')))"

text \<open>
  \<^verbatim>\<open>vlyr.GetExtent()\<close>: the union of the envelopes of the features; for a layer with no
  feature the call fails and the binding returns the zeroed envelope.
\<close>

fun GetExtent :: "feature list \<Rightarrow> bbox" where
  "GetExtent [] = (0, 0, 0, 0)"
| "GetExtent (feat # feats) = foldl merge_envelope (GetEnvelope feat) feats"

subsection \<open>The polygon rasterizer\<close>

text \<open>
  Lines 114 to 122 of \<^verbatim>\<open>zonal_stats\<close>: \<^verbatim>\<open>driver.Create('', xsize, ysize, 1, GDT_Byte)\<close>
  returns \<^verbatim>\<open>None\<close> for a size below one, and \<^verbatim>\<open>rvds.SetGeoTransform\<close> then raises
  AttributeError; otherwise the feature is burnt into the new raster and read back.
  A pixel is burnt when its centre, under the geotransform of the window, is covered by
  the geometry (the fill convention of section 4.3 of the specification).
\<close>

definition rasterize :: "geotransform \<Rightarrow> int \<Rightarrow> int \<Rightarrow> feature \<Rightarrow> error + bool ndarray" where
  "rasterize new_gt xsize ysize feat =
     (if xsize < 1 \<or> ysize < 1 then Inl AttributeError
      else Inr \<lparr>shape = [nat ysize, nat xsize],
                buf = map (\<lambda>(j, i). covers feat (gt0 new_gt + (real i + 1 / 2) * gt1 new_gt)
                                              (gt3 new_gt + (real j + 1 / 2) * gt5 new_gt))
                          (cell_indices xsize ysize)\<rparr>)"

subsection \<open>The mask compositor (numpy)\<close>

text \<open>
  \<^verbatim>\<open>src_array == nodata_value\<close>: a Python bool when the read returned \<^verbatim>\<open>None\<close>, the
  cell-wise comparison otherwise (no cell equals \<^verbatim>\<open>None\<close>).
\<close>

datatype bool_or_array = PyBool bool | BoolArray "bool ndarray"

definition array_eq :: "real ndarray option \<Rightarrow> real option \<Rightarrow> bool_or_array" where
  "array_eq src_array nodata_value =
     (case src_array of
        None \<Rightarrow> PyBool (nodata_value = None)
      | Some a \<Rightarrow> BoolArray \<lparr>shape = shape a,
                              buf = map (\<lambda>v. nodata_value = Some v) (buf a)\<rparr>)"

definition np_logical_not :: "bool ndarray \<Rightarrow> bool ndarray" where
  "np_logical_not a = \<lparr>shape = shape a, buf = map Not (buf a)\<rparr>"

text \<open>
  \<^verbatim>\<open>np.logical_or\<close> of a scalar or an array with an array. Both arrays have the shape of
  the window wherever \<^verbatim>\<open>zonal_stats\<close> calls it; shapes that differ are not broadcast here.
\<close>

definition np_logical_or :: "bool_or_array \<Rightarrow> bool ndarray \<Rightarrow> error + bool ndarray" where
  "np_logical_or x m =
     (case x of
        PyBool b \<Rightarrow> Inr \<lparr>shape = shape m, buf = map (\<lambda>c. b \<or> c) (buf m)\<rparr>
      | BoolArray a \<Rightarrow>
          if shape a = shape m
          then Inr \<lparr>shape = shape m, buf = map (\<lambda>(p, c). p \<or> c) (zip (buf a) (buf m))\<rparr>
          else Inl ValueError)"

definition exclusion_mask ::
  "real ndarray option \<Rightarrow> real option \<Rightarrow> bool ndarray \<Rightarrow> error + bool ndarray" where
  "exclusion_mask src_array nodata_value rv_array =
     np_logical_or (array_eq src_array nodata_value) (np_logical_not rv_array)"

text \<open>
  A masked array: the data, with \<open>None\<close> for the Python object \<^verbatim>\<open>None\<close>, and the mask.
\<close>

record masked =
  ma_shape :: "nat list"
  ma_data :: "real option list"
  ma_mask :: "bool list"

text \<open>\<^verbatim>\<open>np.array(data)\<close>: \<^verbatim>\<open>None\<close> becomes a zero-dimensional object array.\<close>

definition np_array :: "real ndarray option \<Rightarrow> real option ndarray" where
  "np_array data =
     (case data of
        None \<Rightarrow> \<lparr>shape = [], buf = [None]\<rparr>
      | Some a \<Rightarrow> \<lparr>shape = shape a, buf = map Some (buf a)\<rparr>)"

text \<open>
  \<^verbatim>\<open>np.ma.MaskedArray(data, mask=mask)\<close>: a mask of another shape is resized when it has
  one cell, reshaped when it has as many cells as the data, and refused otherwise.
\<close>

definition MaskedArray :: "real ndarray option \<Rightarrow> bool ndarray \<Rightarrow> error + masked" where
  "MaskedArray data msk =
     (let d = np_array data in
      if shape msk \<noteq> shape d then
        (let nd = asize d; nm = asize msk in
         if nm = 1 then
           Inr \<lparr>ma_shape = shape d, ma_data = buf d, ma_mask = replicate nd (hd (buf msk))\<rparr>
         else if nm = nd then
           Inr \<lparr>ma_shape = shape d, ma_data = buf d, ma_mask = buf msk\<rparr>
         else Inl MaskError)
      else Inr \<lparr>ma_shape = shape d, ma_data = buf d, ma_mask = buf msk\<rparr>)"

subsection \<open>The class tabulator\<close>

definition np_count_nonzero :: "bool list \<Rightarrow> nat" where
  "np_count_nonzero bs = length (filter (\<lambda>b. b) bs)"

text \<open>\<^verbatim>\<open>masked.count()\<close>: the size of the data less the number of masked cells.\<close>

definition ma_count :: "masked \<Rightarrow> nat" where
  "ma_count m = length (ma_data m) - np_count_nonzero (ma_mask m)"

text \<open>
  The data of \<^verbatim>\<open>masked == [c]\<close>: true at the cells that are not masked and equal
  \<open>c\<close>, false at every masked cell.
\<close>

definition ma_eq :: "masked \<Rightarrow> real \<Rightarrow> bool list" where
  "ma_eq m c = map (\<lambda>(d, k). \<not> k \<and> d = Some c) (zip (ma_data m) (ma_mask m))"

text \<open>
  The record of one feature. The keys of the class counts are \<^verbatim>\<open>'11'\<close> .. \<^verbatim>\<open>'95'\<close> in
  \<^verbatim>\<open>zonal_stats\<close> and \<^verbatim>\<open>'lulc_11'\<close> .. \<^verbatim>\<open>'lulc_95'\<close> in \<^verbatim>\<open>get_nlcd_counts\<close>, which adds
  the grouped sums \<^verbatim>\<open>'lulc_1'\<close> .. \<^verbatim>\<open>'lulc_9'\<close>.
\<close>

record stats_record =
  FID :: int
  HydroID :: field_value
  TotalPixels :: nat
  lulc_11 :: nat
  lulc_12 :: nat
  lulc_21 :: nat
  lulc_22 :: nat
  lulc_23 :: nat
  lulc_24 :: nat
  lulc_31 :: nat
  lulc_41 :: nat
  lulc_42 :: nat
  lulc_43 :: nat
  lulc_51 :: nat
  lulc_52 :: nat
  lulc_71 :: nat
  lulc_72 :: nat
  lulc_73 :: nat
  lulc_74 :: nat
  lulc_81 :: nat
  lulc_82 :: nat
  lulc_90 :: nat
  lulc_95 :: nat

record nlcd_record = stats_record +
  lulc_1 :: nat
  lulc_2 :: nat
  lulc_3 :: nat
  lulc_4 :: nat
  lulc_5 :: nat
  lulc_7 :: nat
  lulc_8 :: nat
  lulc_9 :: nat

text \<open>The dictionary built at lines 135 to 159 of \<^verbatim>\<open>zonal_stats\<close>.\<close>

definition feature_stats :: "feature \<Rightarrow> masked \<Rightarrow> error + stats_record" where
  "feature_stats feat masked =
     (case GetField feat ''HydroID'' of
        Inl e \<Rightarrow> Inl e
      | Inr hydro \<Rightarrow>
          Inr \<lparr>FID = GetFID feat,
               HydroID = hydro,
               TotalPixels = ma_count masked,
            lulc_11 = np_count_nonzero (ma_eq masked 11),
            lulc_12 = np_count_nonzero (ma_eq masked 12),
            lulc_21 = np_count_nonzero (ma_eq masked 21),
            lulc_22 = np_count_nonzero (ma_eq masked 22),
            lulc_23 = np_count_nonzero (ma_eq masked 23),
            lulc_24 = np_count_nonzero (ma_eq masked 24),
            lulc_31 = np_count_nonzero (ma_eq masked 31),
            lulc_41 = np_count_nonzero (ma_eq masked 41),
            lulc_42 = np_count_nonzero (ma_eq masked 42),
            lulc_43 = np_count_nonzero (ma_eq masked 43),
            lulc_51 = np_count_nonzero (ma_eq masked 51),
            lulc_52 = np_count_nonzero (ma_eq masked 52),
            lulc_71 = np_count_nonzero (ma_eq masked 71),
            lulc_72 = np_count_nonzero (ma_eq masked 72),
            lulc_73 = np_count_nonzero (ma_eq masked 73),
            lulc_74 = np_count_nonzero (ma_eq masked 74),
            lulc_81 = np_count_nonzero (ma_eq masked 81),
            lulc_82 = np_count_nonzero (ma_eq masked 82),
            lulc_90 = np_count_nonzero (ma_eq masked 90),
            lulc_95 = np_count_nonzero (ma_eq masked 95)\<rparr>)"

definition get_nlcd_counts :: "feature \<Rightarrow> masked \<Rightarrow> error + nlcd_record" where
  "get_nlcd_counts feat masked =
     (case GetField feat ''HydroID'' of
        Inl e \<Rightarrow> Inl e
      | Inr hydro \<Rightarrow>
          Inr \<lparr>FID = GetFID feat,
               HydroID = hydro,
               TotalPixels = ma_count masked,
            lulc_11 = np_count_nonzero (ma_eq masked 11),
            lulc_12 = np_count_nonzero (ma_eq masked 12),
            lulc_21 = np_count_nonzero (ma_eq masked 21),
            lulc_22 = np_count_nonzero (ma_eq masked 22),
            lulc_23 = np_count_nonzero (ma_eq masked 23),
            lulc_24 = np_count_nonzero (ma_eq masked 24),
            lulc_31 = np_count_nonzero (ma_eq masked 31),
            lulc_41 = np_count_nonzero (ma_eq masked 41),
            lulc_42 = np_count_nonzero (ma_eq masked 42),
            lulc_43 = np_count_nonzero (ma_eq masked 43),
            lulc_51 = np_count_nonzero (ma_eq masked 51),
            lulc_52 = np_count_nonzero (ma_eq masked 52),
            lulc_71 = np_count_nonzero (ma_eq masked 71),
            lulc_72 = np_count_nonzero (ma_eq masked 72),
            lulc_73 = np_count_nonzero (ma_eq masked 73),
            lulc_74 = np_count_nonzero (ma_eq masked 74),
            lulc_81 = np_count_nonzero (ma_eq masked 81),
            lulc_82 = np_count_nonzero (ma_eq masked 82),
            lulc_90 = np_count_nonzero (ma_eq masked 90),
            lulc_95 = np_count_nonzero (ma_eq masked 95),
            lulc_1 = np_count_nonzero (ma_eq masked 11) + np_count_nonzero (ma_eq masked 12),
            lulc_2 = np_count_nonzero (ma_eq masked 21) + np_count_nonzero (ma_eq masked 22) + np_count_nonzero (ma_eq masked 23) + np_count_nonzero (ma_eq masked 24),
            lulc_3 = np_count_nonzero (ma_eq masked 31),
            lulc_4 = np_count_nonzero (ma_eq masked 41) + np_count_nonzero (ma_eq masked 42) + np_count_nonzero (ma_eq masked 43),
            lulc_5 = np_count_nonzero (ma_eq masked 51) + np_count_nonzero (ma_eq masked 52),
            lulc_7 = np_count_nonzero (ma_eq masked 71) + np_count_nonzero (ma_eq masked 72) + np_count_nonzero (ma_eq masked 73) + np_count_nonzero (ma_eq masked 74),
            lulc_8 = np_count_nonzero (ma_eq masked 81) + np_count_nonzero (ma_eq masked 82),
            lulc_9 = np_count_nonzero (ma_eq masked 90) + np_count_nonzero (ma_eq masked 95)\<rparr>)"

text \<open>The twenty enumerated class codes and the sum of the twenty class counts.\<close>

definition class_codes :: "real list" where
  "class_codes = [11, 12, 21, 22, 23, 24, 31, 41, 42, 43, 51, 52, 71, 72, 73, 74, 81, 82, 90, 95]"

definition class_sum :: "'a stats_record_scheme \<Rightarrow> nat" where
  "class_sum s = lulc_11 s + lulc_12 s + lulc_21 s + lulc_22 s + lulc_23 s + lulc_24 s + lulc_31 s + lulc_41 s + lulc_42 s + lulc_43 s + lulc_51 s + lulc_52 s + lulc_71 s + lulc_72 s + lulc_73 s + lulc_74 s + lulc_81 s + lulc_82 s + lulc_90 s + lulc_95 s"

subsection \<open>The orchestrator\<close>

text \<open>Python's truth value of \<^verbatim>\<open>nodata_value\<close>: \<^verbatim>\<open>None\<close> and zero are false.\<close>

definition py_truth :: "real option \<Rightarrow> bool" where
  "py_truth v = (case v of None \<Rightarrow> False | Some x \<Rightarrow> x \<noteq> 0)"

text \<open>The geotransform of a window of the raster, as computed at lines 77 and 104.\<close>

definition new_gt :: "geotransform \<Rightarrow> window \<Rightarrow> geotransform" where
  "new_gt rgt src_offset =
     (case src_offset of (x1, y1, xsize, ysize) \<Rightarrow>
        \<lparr>gt0 = gt0 rgt + of_int x1 * gt1 rgt,
         gt1 = gt1 rgt,
         gt2 = 0,
         gt3 = gt3 rgt + of_int y1 * gt5 rgt,
         gt4 = 0,
         gt5 = gt5 rgt\<rparr>)"

text \<open>
  The source of a masking step: \<^verbatim>\<open>src_offset\<close>, \<^verbatim>\<open>src_array\<close> and \<^verbatim>\<open>new_gt\<close>, read for
  the extent of the layer (lines 73 to 84) or for the envelope of one feature (lines
  100 to 111). The windows read from the raster are logged.
\<close>

type_synonym source = "window \<times> real ndarray option \<times> geotransform"

definition read_source ::
  "raster \<Rightarrow> bbox \<Rightarrow> window list \<Rightarrow> error + (source \<times> window list)" where
  "read_source rb bbox reads =
     (case bbox_to_pixel_offsets (GetGeoTransform rb) bbox of
        Inl e \<Rightarrow> Inl e
      | Inr src_offset \<Rightarrow>
          (case ReadAsArray rb src_offset of
             Inl e \<Rightarrow> Inl e
           | Inr src_array \<Rightarrow>
               Inr ((src_offset, src_array, new_gt (GetGeoTransform rb) src_offset),
                    reads @ [src_offset])))"

text \<open>Lines 113 to 159: rasterize the feature, mask the source, tabulate.\<close>

definition mask_and_count :: "real option \<Rightarrow> source \<Rightarrow> feature \<Rightarrow> error + stats_record" where
  "mask_and_count nodata_value src feat =
     (case src of (src_offset, src_array, gt) \<Rightarrow>
       (case src_offset of (x1, y1, xsize, ysize) \<Rightarrow>
         (case rasterize gt xsize ysize feat of
            Inl e \<Rightarrow> Inl e
          | Inr rv_array \<Rightarrow>
              (case exclusion_mask src_array nodata_value rv_array of
                 Inl e \<Rightarrow> Inl e
               | Inr msk \<Rightarrow>
                   (case MaskedArray src_array msk of
                      Inl e \<Rightarrow> Inl e
                    | Inr masked \<Rightarrow> feature_stats feat masked)))))"

text \<open>
  The loop over the features (lines 91 to 164). \<open>global_src\<close> is the source read before
  the loop in global-extent mode and \<open>None\<close> in local-extent mode.
\<close>

fun features_loop ::
  "raster \<Rightarrow> real option \<Rightarrow> source option \<Rightarrow> feature list \<Rightarrow> stats_record list \<Rightarrow>
   window list \<Rightarrow> error + (stats_record list \<times> window list)" where
  "features_loop rb nodata_value global_src [] stats reads = Inr (stats, reads)"
| "features_loop rb nodata_value global_src (feat # rest) stats reads =
     (case (case global_src of
              None \<Rightarrow> read_source rb (GetEnvelope feat) reads
            | Some src \<Rightarrow> Inr (src, reads)) of
        Inl e \<Rightarrow> Inl e
      | Inr (src, reads') \<Rightarrow>
          (case mask_and_count nodata_value src feat of
             Inl e \<Rightarrow> Inl e
           | Inr fs \<Rightarrow>
               features_loop rb nodata_value global_src rest (stats @ [fs]) reads'))"

text \<open>
  \<^verbatim>\<open>zonal_stats\<close> with the log of the windows read. The arguments are what
  \<^verbatim>\<open>ogr.Open(vector_path)\<close> and \<^verbatim>\<open>gdal.Open(raster_path)\<close> return: \<open>None\<close> for a source
  that cannot be opened, else layer 0 of the vector source and the raster.
\<close>

definition zonal_stats_io ::
  "layer option \<Rightarrow> raster option \<Rightarrow> real option \<Rightarrow> bool \<Rightarrow>
   error + (stats_record list \<times> window list)" where
  "zonal_stats_io vds rds nodata_value global_src_extent =
     (case rds of
        None \<Rightarrow> Inl AssertionError
      | Some rb0 \<Rightarrow>
          (let rb = (if py_truth nodata_value
                     then SetNoDataValue rb0 (the nodata_value) else rb0)
           in (case vds of
                 None \<Rightarrow> Inl AttributeError
               | Some vlyr \<Rightarrow>
                   (if global_src_extent then
                      (case read_source rb (GetExtent (GetFeatures vlyr)) [] of
                         Inl e \<Rightarrow> Inl e
                       | Inr (src, reads) \<Rightarrow>
                           features_loop rb nodata_value (Some src) (GetFeatures vlyr) []
                             reads)
                    else features_loop rb nodata_value None (GetFeatures vlyr) [] []))))"

definition zonal_stats ::
  "layer option \<Rightarrow> raster option \<Rightarrow> real option \<Rightarrow> bool \<Rightarrow> error + stats_record list" where
  "zonal_stats vds rds nodata_value global_src_extent =
     (case zonal_stats_io vds rds nodata_value global_src_extent of
        Inl e \<Rightarrow> Inl e
      | Inr (stats, reads) \<Rightarrow> Inr stats)"

subsection \<open>Example inputs\<close>

text \<open>A north-up geotransform with unit pixels whose origin is the corner \<open>(0, 10)\<close>.\<close>

definition north_up :: geotransform where
  "north_up = \<lparr>gt0 = 0, gt1 = 1, gt2 = 0, gt3 = 10, gt4 = 0, gt5 = - 1\<rparr>"

text \<open>A south-up geotransform with unit pixels whose origin is the corner \<open>(0, 0)\<close>.\<close>

definition south_up :: geotransform where
  "south_up = \<lparr>gt0 = 0, gt1 = 1, gt2 = 0, gt3 = 0, gt4 = 0, gt5 = 1\<rparr>"

text \<open>A raster of the given size whose pixels all hold the same value.\<close>

definition filled_raster :: "geotransform \<Rightarrow> int \<Rightarrow> int \<Rightarrow> real \<Rightarrow> raster" where
  "filled_raster gt xs ys v =
     \<lparr>GetGeoTransform = gt, RasterXSize = xs, RasterYSize = ys, NoDataValue = None,
      pixel = (\<lambda>col row. v)\<rparr>"

text \<open>A row whose polygon is the closed rectangle of its envelope.\<close>

definition rectangle :: "int \<Rightarrow> (string \<Rightarrow> field_value option) \<Rightarrow> bbox \<Rightarrow> row" where
  "rectangle fid flds box =
     \<lparr>GetFID = fid, attributes = flds, GetEnvelope = box,
      covers = (\<lambda>x y. case box of (minX, maxX, minY, maxY) \<Rightarrow>
                  minX \<le> x \<and> x \<le> maxX \<and> minY \<le> y \<and> y \<le> maxY)\<rparr>"

definition hydro :: "int \<Rightarrow> string \<Rightarrow> field_value option" where
  "hydro n = [''HydroID'' \<mapsto> FInt n]"

text \<open>A layer whose only field is \<open>HydroID\<close>, and a feature of such a layer.\<close>

definition hydro_layer :: "row list \<Rightarrow> layer" where
  "hydro_layer rs = \<lparr>GetLayerDefn = [''HydroID''], rows = rs\<rparr>"

definition hydro_feature :: "row \<Rightarrow> feature" where
  "hydro_feature r = feature_of [''HydroID''] r"

subsection \<open>Predicates of the statements\<close>

text \<open>The first window lies inside the second.\<close>

definition window_subset :: "window \<Rightarrow> window \<Rightarrow> bool" where
  "window_subset win win' =
     (case win of (x1, y1, xsize, ysize) \<Rightarrow>
       (case win' of (x1', y1', xsize', ysize') \<Rightarrow>
          x1' \<le> x1 \<and> y1' \<le> y1 \<and> x1 + xsize \<le> x1' + xsize' \<and> y1 + ysize \<le> y1' + ysize'))"

text \<open>The pixel window of the envelope of a feature lies inside the raster.\<close>

definition feature_window_in_raster :: "raster \<Rightarrow> feature \<Rightarrow> bool" where
  "feature_window_in_raster rb feat =
     (case bbox_to_pixel_offsets (GetGeoTransform rb) (GetEnvelope feat) of
        Inl e \<Rightarrow> False
      | Inr win \<Rightarrow> window_in_raster rb win)"

text \<open>Every point that the geometry of a feature covers lies in its envelope.\<close>

definition geometry_in_envelope :: "feature \<Rightarrow> bool" where
  "geometry_in_envelope feat =
     (case GetEnvelope feat of (minX, maxX, minY, maxY) \<Rightarrow>
        (\<forall>x y. covers feat x y \<longrightarrow> minX \<le> x \<and> x \<le> maxX \<and> minY \<le> y \<and> y \<le> maxY))"

text \<open>
  The pixel at a column and a row of the raster is counted for a feature: it does not
  hold the no-data value and its centre is covered by the geometry.
\<close>

definition counted :: "raster \<Rightarrow> real option \<Rightarrow> feature \<Rightarrow> int \<Rightarrow> int \<Rightarrow> bool" where
  "counted rb nodata_value feat col row =
     (nodata_value \<noteq> Some (pixel rb col row) \<and>
      covers feat (gt0 (GetGeoTransform rb) + (of_int col + 1 / 2) * gt1 (GetGeoTransform rb))
                  (gt3 (GetGeoTransform rb) + (of_int row + 1 / 2) * gt5 (GetGeoTransform rb)))"

section \<open>Properties\<close>

subsection \<open>Properties of the pixel-offset mapper\<close>

lemma py_int_spec_trunc: "py_int x = spec_trunc x"
proof (cases "x < 0")
  case True
  then have "\<lceil>x\<rceil> = - \<lfloor>- x\<rfloor>" by (simp add: ceiling_def)
  with True show ?thesis by (simp add: py_int_def spec_trunc_def)
next
  case False
  then show ?thesis by (simp add: py_int_def spec_trunc_def)
qed

lemma bbox_to_pixel_offsets_eq:
  assumes "gt1 gt \<noteq> 0" and "gt5 gt \<noteq> 0"
  shows "bbox_to_pixel_offsets gt (minX, maxX, minY, maxY) =
     Inr (py_int ((minX - gt0 gt) / gt1 gt),
          py_int ((maxY - gt3 gt) / gt5 gt),
          py_int ((maxX - gt0 gt) / gt1 gt) + 1 - py_int ((minX - gt0 gt) / gt1 gt),
          py_int ((minY - gt3 gt) / gt5 gt) + 1 - py_int ((maxY - gt3 gt) / gt5 gt))"
  using assms by (simp add: bbox_to_pixel_offsets_def py_div_def Let_def)

subsection \<open>The pixel window of a bounding box\<close>

text \<open>
  Claim C1. For a geotransform with non-zero pixel width and height,
  \<^verbatim>\<open>bbox_to_pixel_offsets\<close> returns \<open>(x1, y1, x2 - x1, y2 - y1)\<close> with
  \<open>x1 = trunc ((minX - originX) / pixelWidth)\<close>, \<open>x2 = trunc ((maxX - originX) / pixelWidth) + 1\<close>,
  \<open>y1 = trunc ((maxY - originY) / pixelHeight)\<close> and \<open>y2 = trunc ((minY - originY) / pixelHeight) + 1\<close>,
  where \<open>trunc\<close> truncates toward zero. It is not floor: a box that straddles the
  origin by half a pixel on each side gets the window \<open>(0, 0, 1, 1)\<close>, although the floor
  of its first quotient is \<open>- 1\<close>. The window is not clamped: a box two pixels to the left
  of the origin gets the column offset \<open>- 2\<close>, which lies in no raster.
\<close>

theorem bbox_to_pixel_offsets_truncates:
  assumes "gt1 gt \<noteq> 0" and "gt5 gt \<noteq> 0"
  shows "bbox_to_pixel_offsets gt (minX, maxX, minY, maxY) =
           (let x1 = spec_trunc ((minX - gt0 gt) / gt1 gt);
                x2 = spec_trunc ((maxX - gt0 gt) / gt1 gt) + 1;
                y1 = spec_trunc ((maxY - gt3 gt) / gt5 gt);
                y2 = spec_trunc ((minY - gt3 gt) / gt5 gt) + 1
            in Inr (x1, y1, x2 - x1, y2 - y1))
         \<and> bbox_to_pixel_offsets gt
              (gt0 gt - gt1 gt / 2, gt0 gt + gt1 gt / 2, gt3 gt + gt5 gt / 2, gt3 gt - gt5 gt / 2)
             = Inr (0, 0, 1, 1)
         \<and> \<lfloor>(gt0 gt - gt1 gt / 2 - gt0 gt) / gt1 gt\<rfloor> = - 1
         \<and> bbox_to_pixel_offsets gt
              (gt0 gt - 2 * gt1 gt, gt0 gt - 2 * gt1 gt, gt3 gt, gt3 gt) = Inr (- 2, 0, 1, 1)
         \<and> \<not> window_in_raster rb (- 2, 0, 1, 1)"
proof -
  have a: "(gt0 gt - gt1 gt / 2 - gt0 gt) / gt1 gt = - (1 / 2)"
    using assms by (simp add: field_simps)
  have b: "(gt0 gt + gt1 gt / 2 - gt0 gt) / gt1 gt = 1 / 2"
    using assms by (simp add: field_simps)
  have c: "(gt3 gt - gt5 gt / 2 - gt3 gt) / gt5 gt = - (1 / 2)"
    using assms by (simp add: field_simps)
  have d: "(gt3 gt + gt5 gt / 2 - gt3 gt) / gt5 gt = 1 / 2"
    using assms by (simp add: field_simps)
  have e: "(gt0 gt - 2 * gt1 gt - gt0 gt) / gt1 gt = - 2"
    using assms by (simp add: field_simps)
  have h: "\<lceil>- (1 / 2) :: real\<rceil> = 0"
    by (simp add: ceiling_eq_iff)
  have 1: "bbox_to_pixel_offsets gt (minX, maxX, minY, maxY) =
           (let x1 = spec_trunc ((minX - gt0 gt) / gt1 gt);
                x2 = spec_trunc ((maxX - gt0 gt) / gt1 gt) + 1;
                y1 = spec_trunc ((maxY - gt3 gt) / gt5 gt);
                y2 = spec_trunc ((minY - gt3 gt) / gt5 gt) + 1
            in Inr (x1, y1, x2 - x1, y2 - y1))"
    using assms by (simp add: bbox_to_pixel_offsets_eq py_int_spec_trunc Let_def)
  have 2: "bbox_to_pixel_offsets gt
              (gt0 gt - gt1 gt / 2, gt0 gt + gt1 gt / 2, gt3 gt + gt5 gt / 2, gt3 gt - gt5 gt / 2)
             = Inr (0, 0, 1, 1)"
    using assms by (simp add: bbox_to_pixel_offsets_eq a b c d h py_int_def)
  have 3: "\<lfloor>(gt0 gt - gt1 gt / 2 - gt0 gt) / gt1 gt\<rfloor> = - 1"
    unfolding a by simp
  have 4: "bbox_to_pixel_offsets gt
              (gt0 gt - 2 * gt1 gt, gt0 gt - 2 * gt1 gt, gt3 gt, gt3 gt) = Inr (- 2, 0, 1, 1)"
    using assms by (simp add: bbox_to_pixel_offsets_eq e py_int_def)
  have 5: "\<not> window_in_raster rb (- 2, 0, 1, 1)"
    by (simp add: window_in_raster_def)
  from 1 2 3 4 5 show ?thesis by blast
qed

theorem bbox_to_pixel_offsets_truncates_witness:
  "gt1 north_up \<noteq> 0 \<and> gt5 north_up \<noteq> 0 \<and>
   bbox_to_pixel_offsets north_up (5 / 2, 15 / 2, 13 / 4, 27 / 4) = Inr (2, 3, 6, 4)"
  using bbox_to_pixel_offsets_truncates [of north_up "5 / 2" "15 / 2" "13 / 4" "27 / 4"]
  by (simp add: north_up_def spec_trunc_def)

subsection \<open>The exclusion mask\<close>

lemma exclusion_mask_Some:
  assumes "shape rv = shape a"
  shows "exclusion_mask (Some a) nodata_value rv =
           Inr \<lparr>shape = shape a,
                buf = map (\<lambda>(v, c). nodata_value = Some v \<or> \<not> c) (zip (buf a) (buf rv))\<rparr>"
  using assms
  by (simp add: exclusion_mask_def array_eq_def np_logical_or_def np_logical_not_def
      zip_map1 zip_map2 case_prod_unfold)

lemma MaskedArray_same_shape:
  assumes "shape msk = shape a"
  shows "MaskedArray (Some a) msk =
           Inr \<lparr>ma_shape = shape a, ma_data = map Some (buf a), ma_mask = buf msk\<rparr>"
  using assms by (simp add: MaskedArray_def np_array_def Let_def)

text \<open>
  Claim C2. For a raster window, a coverage mask of the same shape and any no-data
  value, the mask of the masked array that is tabulated is, at every cell \<open>i\<close>,
  \<open>raster[i] = nodata \<or> \<not> coverage[i]\<close>; with no no-data value it is \<open>\<not> coverage[i]\<close>.
\<close>

theorem exclusion_mask_cells:
  assumes "shape rv = shape a" and "length (buf rv) = length (buf a)" and "i < length (buf a)"
  shows "\<exists>excluded masked.
           exclusion_mask (Some a) nodata_value rv = Inr excluded \<and>
           MaskedArray (Some a) excluded = Inr masked \<and>
           ma_mask masked = buf excluded \<and>
           shape excluded = shape a \<and>
           length (buf excluded) = length (buf a) \<and>
           buf excluded ! i = (nodata_value = Some (buf a ! i) \<or> \<not> buf rv ! i) \<and>
           (nodata_value = None \<longrightarrow> buf excluded ! i = (\<not> buf rv ! i))"
proof -
  let ?m = "\<lparr>shape = shape a,
             buf = map (\<lambda>(v, c). nodata_value = Some v \<or> \<not> c) (zip (buf a) (buf rv))\<rparr>"
  have e: "exclusion_mask (Some a) nodata_value rv = Inr ?m"
    using assms(1) by (rule exclusion_mask_Some)
  have m: "MaskedArray (Some a) ?m =
             Inr \<lparr>ma_shape = shape a, ma_data = map Some (buf a), ma_mask = buf ?m\<rparr>"
    by (rule MaskedArray_same_shape) simp
  have l: "length (buf ?m) = length (buf a)"
    using assms(2) by simp
  have c: "buf ?m ! i = (nodata_value = Some (buf a ! i) \<or> \<not> buf rv ! i)"
    using assms(2,3) by simp
  from e m l c show ?thesis by auto
qed

theorem exclusion_mask_cells_witness:
  "\<exists>excluded.
     exclusion_mask (Some \<lparr>shape = [1, 3], buf = [21, 0, 11]\<rparr>) (Some 0)
        \<lparr>shape = [1, 3], buf = [True, True, False]\<rparr> = Inr excluded \<and>
     buf excluded ! 0 = False \<and> buf excluded ! 1 = True \<and> buf excluded ! 2 = True"
proof -
  let ?a = "\<lparr>shape = [1, 3], buf = [21, 0, 11 :: real]\<rparr>"
  let ?rv = "\<lparr>shape = [1, 3], buf = [True, True, False]\<rparr>"
  have s: "shape ?rv = shape ?a" and l: "length (buf ?rv) = length (buf ?a)"
    by simp_all
  have i0: "0 < length (buf ?a)" and i1: "1 < length (buf ?a)" and i2: "2 < length (buf ?a)"
    by simp_all
  show ?thesis
    using exclusion_mask_cells [OF s l i0, of "Some 0"]
      exclusion_mask_cells [OF s l i1, of "Some 0"]
      exclusion_mask_cells [OF s l i2, of "Some 0"]
    by auto
qed

subsection \<open>The class counts\<close>

lemma count_nonzero_ma_eq:
  "np_count_nonzero (ma_eq m c) =
     length (filter (\<lambda>(d, k). \<not> k \<and> d = Some c) (zip (ma_data m) (ma_mask m)))"
  by (simp add: np_count_nonzero_def ma_eq_def filter_map o_def case_prod_unfold)

lemma ma_count_filter:
  assumes "length (ma_data m) = length (ma_mask m)"
  shows "ma_count m = length (filter (\<lambda>(d, k). \<not> k) (zip (ma_data m) (ma_mask m)))"
proof -
  have "length (filter (\<lambda>(d, k). \<not> k) (zip ds ks)) + length (filter (\<lambda>b. b) ks) = length ds"
    if "length ds = length ks" for ds :: "real option list" and ks
    using that by (induction ds ks rule: list_induct2) auto
  from this [OF assms] show ?thesis
    by (simp add: ma_count_def np_count_nonzero_def)
qed

lemma sum_class_filters:
  assumes "distinct cs"
  shows "(\<Sum>c\<leftarrow>cs. length (filter (\<lambda>(d, k). \<not> k \<and> d = Some c) xs)) =
           length (filter (\<lambda>(d, k). \<not> k \<and> d \<in> Some ` set cs) xs)"
  using assms
proof (induction cs)
  case Nil
  then show ?case by simp
next
  case (Cons c cs)
  have "length (filter (\<lambda>(d, k). \<not> k \<and> d \<in> Some ` set (c # cs)) xs) =
          length (filter (\<lambda>(d, k). \<not> k \<and> d = Some c) xs) +
          length (filter (\<lambda>(d, k). \<not> k \<and> d \<in> Some ` set cs) xs)"
    using Cons.prems by (induction xs) auto
  with Cons show ?case by simp
qed

lemma filter_split_length:
  "length (filter P xs) = length (filter (\<lambda>x. P x \<and> Q x) xs) + length (filter (\<lambda>x. P x \<and> \<not> Q x) xs)"
  by (induction xs) auto

lemma class_codes_distinct: "distinct class_codes"
  by (simp add: class_codes_def)

lemma class_sum_filter:
  "np_count_nonzero (ma_eq m 11) + np_count_nonzero (ma_eq m 12) +
         np_count_nonzero (ma_eq m 21) + np_count_nonzero (ma_eq m 22) +
         np_count_nonzero (ma_eq m 23) + np_count_nonzero (ma_eq m 24) +
         np_count_nonzero (ma_eq m 31) + np_count_nonzero (ma_eq m 41) +
         np_count_nonzero (ma_eq m 42) + np_count_nonzero (ma_eq m 43) +
         np_count_nonzero (ma_eq m 51) + np_count_nonzero (ma_eq m 52) +
         np_count_nonzero (ma_eq m 71) + np_count_nonzero (ma_eq m 72) +
         np_count_nonzero (ma_eq m 73) + np_count_nonzero (ma_eq m 74) +
         np_count_nonzero (ma_eq m 81) + np_count_nonzero (ma_eq m 82) +
         np_count_nonzero (ma_eq m 90) + np_count_nonzero (ma_eq m 95) =
         length (filter (\<lambda>(d, k). \<not> k \<and> d \<in> Some ` set class_codes)
                   (zip (ma_data m) (ma_mask m)))"
proof -
  have "(\<Sum>c\<leftarrow>class_codes. np_count_nonzero (ma_eq m c)) =
          length (filter (\<lambda>(d, k). \<not> k \<and> d \<in> Some ` set class_codes)
                   (zip (ma_data m) (ma_mask m)))"
    unfolding count_nonzero_ma_eq by (rule sum_class_filters [OF class_codes_distinct])
  then show ?thesis
    by (simp add: class_codes_def add.assoc)
qed

lemma feature_stats_fields:
  assumes "feature_stats feat m = Inr fs"
  shows "TotalPixels fs = ma_count m"
    and "class_sum fs =
         length (filter (\<lambda>(d, k). \<not> k \<and> d \<in> Some ` set class_codes)
                   (zip (ma_data m) (ma_mask m)))"
proof -
  from assms obtain h where fs: "fs =
    \<lparr>FID = GetFID feat, HydroID = h, TotalPixels = ma_count m,
     lulc_11 = np_count_nonzero (ma_eq m 11), lulc_12 = np_count_nonzero (ma_eq m 12),
     lulc_21 = np_count_nonzero (ma_eq m 21), lulc_22 = np_count_nonzero (ma_eq m 22),
     lulc_23 = np_count_nonzero (ma_eq m 23), lulc_24 = np_count_nonzero (ma_eq m 24),
     lulc_31 = np_count_nonzero (ma_eq m 31), lulc_41 = np_count_nonzero (ma_eq m 41),
     lulc_42 = np_count_nonzero (ma_eq m 42), lulc_43 = np_count_nonzero (ma_eq m 43),
     lulc_51 = np_count_nonzero (ma_eq m 51), lulc_52 = np_count_nonzero (ma_eq m 52),
     lulc_71 = np_count_nonzero (ma_eq m 71), lulc_72 = np_count_nonzero (ma_eq m 72),
     lulc_73 = np_count_nonzero (ma_eq m 73), lulc_74 = np_count_nonzero (ma_eq m 74),
     lulc_81 = np_count_nonzero (ma_eq m 81), lulc_82 = np_count_nonzero (ma_eq m 82),
     lulc_90 = np_count_nonzero (ma_eq m 90), lulc_95 = np_count_nonzero (ma_eq m 95)\<rparr>"
    by (auto simp: feature_stats_def split: sum.splits)
  show "TotalPixels fs = ma_count m"
    by (simp add: fs)
  have "class_sum fs =
         np_count_nonzero (ma_eq m 11) + np_count_nonzero (ma_eq m 12) +
         np_count_nonzero (ma_eq m 21) + np_count_nonzero (ma_eq m 22) +
         np_count_nonzero (ma_eq m 23) + np_count_nonzero (ma_eq m 24) +
         np_count_nonzero (ma_eq m 31) + np_count_nonzero (ma_eq m 41) +
         np_count_nonzero (ma_eq m 42) + np_count_nonzero (ma_eq m 43) +
         np_count_nonzero (ma_eq m 51) + np_count_nonzero (ma_eq m 52) +
         np_count_nonzero (ma_eq m 71) + np_count_nonzero (ma_eq m 72) +
         np_count_nonzero (ma_eq m 73) + np_count_nonzero (ma_eq m 74) +
         np_count_nonzero (ma_eq m 81) + np_count_nonzero (ma_eq m 82) +
         np_count_nonzero (ma_eq m 90) + np_count_nonzero (ma_eq m 95)"
    by (simp add: fs class_sum_def)
  then show "class_sum fs =
         length (filter (\<lambda>(d, k). \<not> k \<and> d \<in> Some ` set class_codes)
                   (zip (ma_data m) (ma_mask m)))"
    by (simp only: class_sum_filter)
qed

lemma get_nlcd_counts_fields:
  assumes "get_nlcd_counts feat m = Inr gs"
  shows "TotalPixels gs = ma_count m"
    and "class_sum gs =
         length (filter (\<lambda>(d, k). \<not> k \<and> d \<in> Some ` set class_codes)
                   (zip (ma_data m) (ma_mask m)))"
    and "lulc_1 gs = lulc_11 gs + lulc_12 gs"
    and "lulc_2 gs = lulc_21 gs + lulc_22 gs + lulc_23 gs + lulc_24 gs"
    and "lulc_3 gs = lulc_31 gs"
    and "lulc_4 gs = lulc_41 gs + lulc_42 gs + lulc_43 gs"
    and "lulc_5 gs = lulc_51 gs + lulc_52 gs"
    and "lulc_7 gs = lulc_71 gs + lulc_72 gs + lulc_73 gs + lulc_74 gs"
    and "lulc_8 gs = lulc_81 gs + lulc_82 gs"
    and "lulc_9 gs = lulc_90 gs + lulc_95 gs"
proof -
  from assms obtain h where gs: "gs =
    \<lparr>FID = GetFID feat, HydroID = h, TotalPixels = ma_count m,
     lulc_11 = np_count_nonzero (ma_eq m 11), lulc_12 = np_count_nonzero (ma_eq m 12),
     lulc_21 = np_count_nonzero (ma_eq m 21), lulc_22 = np_count_nonzero (ma_eq m 22),
     lulc_23 = np_count_nonzero (ma_eq m 23), lulc_24 = np_count_nonzero (ma_eq m 24),
     lulc_31 = np_count_nonzero (ma_eq m 31), lulc_41 = np_count_nonzero (ma_eq m 41),
     lulc_42 = np_count_nonzero (ma_eq m 42), lulc_43 = np_count_nonzero (ma_eq m 43),
     lulc_51 = np_count_nonzero (ma_eq m 51), lulc_52 = np_count_nonzero (ma_eq m 52),
     lulc_71 = np_count_nonzero (ma_eq m 71), lulc_72 = np_count_nonzero (ma_eq m 72),
     lulc_73 = np_count_nonzero (ma_eq m 73), lulc_74 = np_count_nonzero (ma_eq m 74),
     lulc_81 = np_count_nonzero (ma_eq m 81), lulc_82 = np_count_nonzero (ma_eq m 82),
     lulc_90 = np_count_nonzero (ma_eq m 90), lulc_95 = np_count_nonzero (ma_eq m 95),
     lulc_1 = np_count_nonzero (ma_eq m 11) + np_count_nonzero (ma_eq m 12),
     lulc_2 = np_count_nonzero (ma_eq m 21) + np_count_nonzero (ma_eq m 22) +
              np_count_nonzero (ma_eq m 23) + np_count_nonzero (ma_eq m 24),
     lulc_3 = np_count_nonzero (ma_eq m 31),
     lulc_4 = np_count_nonzero (ma_eq m 41) + np_count_nonzero (ma_eq m 42) +
              np_count_nonzero (ma_eq m 43),
     lulc_5 = np_count_nonzero (ma_eq m 51) + np_count_nonzero (ma_eq m 52),
     lulc_7 = np_count_nonzero (ma_eq m 71) + np_count_nonzero (ma_eq m 72) +
              np_count_nonzero (ma_eq m 73) + np_count_nonzero (ma_eq m 74),
     lulc_8 = np_count_nonzero (ma_eq m 81) + np_count_nonzero (ma_eq m 82),
     lulc_9 = np_count_nonzero (ma_eq m 90) + np_count_nonzero (ma_eq m 95)\<rparr>"
    by (auto simp: get_nlcd_counts_def split: sum.splits)
  show "TotalPixels gs = ma_count m"
    by (simp add: gs)
  have "class_sum gs =
         np_count_nonzero (ma_eq m 11) + np_count_nonzero (ma_eq m 12) +
         np_count_nonzero (ma_eq m 21) + np_count_nonzero (ma_eq m 22) +
         np_count_nonzero (ma_eq m 23) + np_count_nonzero (ma_eq m 24) +
         np_count_nonzero (ma_eq m 31) + np_count_nonzero (ma_eq m 41) +
         np_count_nonzero (ma_eq m 42) + np_count_nonzero (ma_eq m 43) +
         np_count_nonzero (ma_eq m 51) + np_count_nonzero (ma_eq m 52) +
         np_count_nonzero (ma_eq m 71) + np_count_nonzero (ma_eq m 72) +
         np_count_nonzero (ma_eq m 73) + np_count_nonzero (ma_eq m 74) +
         np_count_nonzero (ma_eq m 81) + np_count_nonzero (ma_eq m 82) +
         np_count_nonzero (ma_eq m 90) + np_count_nonzero (ma_eq m 95)"
    by (simp add: gs class_sum_def)
  then show "class_sum gs =
         length (filter (\<lambda>(d, k). \<not> k \<and> d \<in> Some ` set class_codes)
                   (zip (ma_data m) (ma_mask m)))"
    by (simp only: class_sum_filter)
  show "lulc_1 gs = lulc_11 gs + lulc_12 gs" by (simp add: gs)
  show "lulc_2 gs = lulc_21 gs + lulc_22 gs + lulc_23 gs + lulc_24 gs" by (simp add: gs)
  show "lulc_3 gs = lulc_31 gs" by (simp add: gs)
  show "lulc_4 gs = lulc_41 gs + lulc_42 gs + lulc_43 gs" by (simp add: gs)
  show "lulc_5 gs = lulc_51 gs + lulc_52 gs" by (simp add: gs)
  show "lulc_7 gs = lulc_71 gs + lulc_72 gs + lulc_73 gs + lulc_74 gs" by (simp add: gs)
  show "lulc_8 gs = lulc_81 gs + lulc_82 gs" by (simp add: gs)
  show "lulc_9 gs = lulc_90 gs + lulc_95 gs" by (simp add: gs)
qed

lemma conservation:
  fixes xs :: "(real option \<times> bool) list"
  assumes "tot = length (filter (\<lambda>(d, k). \<not> k) xs)"
      and "cls = length (filter (\<lambda>(d, k). \<not> k \<and> d \<in> Some ` set class_codes) xs)"
  shows "tot = cls + length (filter (\<lambda>(d, k). \<not> k \<and> d \<notin> Some ` set class_codes) xs)"
    and "cls \<le> tot"
    and "cls = tot \<longleftrightarrow> (\<forall>(d, k)\<in>set xs. \<not> k \<longrightarrow> d \<in> Some ` set class_codes)"
proof -
  let ?P = "\<lambda>(d, k). \<not> (k :: bool)" and ?Q = "\<lambda>(d :: real option, k :: bool). d \<in> Some ` set class_codes"
  have split: "length (filter ?P xs) =
      length (filter (\<lambda>x. ?P x \<and> ?Q x) xs) + length (filter (\<lambda>x. ?P x \<and> \<not> ?Q x) xs)"
    by (rule filter_split_length)
  have e1: "(\<lambda>x. ?P x \<and> ?Q x) = (\<lambda>(d, k). \<not> k \<and> d \<in> Some ` set class_codes)"
    by auto
  have e2: "(\<lambda>x. ?P x \<and> \<not> ?Q x) = (\<lambda>(d, k). \<not> k \<and> d \<notin> Some ` set class_codes)"
    by auto
  show t: "tot = cls + length (filter (\<lambda>(d, k). \<not> k \<and> d \<notin> Some ` set class_codes) xs)"
    using split unfolding e1 e2 assms by simp
  then show "cls \<le> tot" by simp
  have "length (filter (\<lambda>(d, k). \<not> k \<and> d \<notin> Some ` set class_codes) xs) = 0
          \<longleftrightarrow> (\<forall>(d, k)\<in>set xs. \<not> k \<longrightarrow> d \<in> Some ` set class_codes)"
    by (auto simp: filter_empty_conv)
  with t show "cls = tot \<longleftrightarrow> (\<forall>(d, k)\<in>set xs. \<not> k \<longrightarrow> d \<in> Some ` set class_codes)"
    by auto
qed

text \<open>
  Claim C3. In every record of the tabulator (the dictionary of \<^verbatim>\<open>zonal_stats\<close> and the
  one of \<^verbatim>\<open>get_nlcd_counts\<close>), \<open>TotalPixels\<close> is the sum of the twenty class counts plus
  the number of non-excluded cells whose value is none of the twenty codes. So
  \<open>TotalPixels\<close> is at least the sum of the class counts, with equality exactly when every
  non-excluded cell holds one of the codes; the eight grouped sums add up to the sum
  of the class counts, so such a cell counts toward no class and no group.
\<close>

theorem total_pixels_conservation:
  assumes "length (ma_data masked) = length (ma_mask masked)"
      and "feature_stats feat masked = Inr fs"
      and "get_nlcd_counts feat masked = Inr gs"
  shows "TotalPixels fs = length (filter (\<lambda>(d, k). \<not> k) (zip (ma_data masked) (ma_mask masked)))
       \<and> TotalPixels fs = class_sum fs +
           length (filter (\<lambda>(d, k). \<not> k \<and> d \<notin> Some ` set class_codes)
                     (zip (ma_data masked) (ma_mask masked)))
       \<and> class_sum fs \<le> TotalPixels fs
       \<and> (class_sum fs = TotalPixels fs \<longleftrightarrow>
            (\<forall>(d, k)\<in>set (zip (ma_data masked) (ma_mask masked)).
               \<not> k \<longrightarrow> d \<in> Some ` set class_codes))
       \<and> TotalPixels gs = TotalPixels fs \<and> class_sum gs = class_sum fs
       \<and> lulc_1 gs + lulc_2 gs + lulc_3 gs + lulc_4 gs + lulc_5 gs + lulc_7 gs + lulc_8 gs
           + lulc_9 gs = class_sum gs"
proof -
  note f = feature_stats_fields [OF assms(2)]
  note g = get_nlcd_counts_fields [OF assms(3)]
  have t: "TotalPixels fs = length (filter (\<lambda>(d, k). \<not> k) (zip (ma_data masked) (ma_mask masked)))"
    using f(1) ma_count_filter [OF assms(1)] by simp
  note c = conservation [OF t f(2)]
  have s: "lulc_1 gs + lulc_2 gs + lulc_3 gs + lulc_4 gs + lulc_5 gs + lulc_7 gs + lulc_8 gs
           + lulc_9 gs = class_sum gs"
    unfolding g(3-10) by (simp add: class_sum_def)
  have e: "TotalPixels gs = TotalPixels fs" "class_sum gs = class_sum fs"
    using f g(1,2) by simp_all
  from t c s e show ?thesis by blast
qed

theorem total_pixels_conservation_witness:
  "\<exists>fs gs.
     feature_stats (hydro_feature (rectangle 1 (hydro 5) (0, 3, 0, 1)))
       \<lparr>ma_shape = [1, 3], ma_data = [Some 21, Some 7, Some 11],
        ma_mask = [False, False, True]\<rparr> = Inr fs \<and>
     get_nlcd_counts (hydro_feature (rectangle 1 (hydro 5) (0, 3, 0, 1)))
       \<lparr>ma_shape = [1, 3], ma_data = [Some 21, Some 7, Some 11],
        ma_mask = [False, False, True]\<rparr> = Inr gs \<and>
     TotalPixels fs = 2 \<and> class_sum fs = 1 \<and> TotalPixels gs = 2 \<and> class_sum gs = 1"
proof -
  let ?m = "\<lparr>ma_shape = [1, 3], ma_data = [Some 21, Some 7, Some 11],
             ma_mask = [False, False, True]\<rparr>"
  let ?f = "hydro_feature (rectangle 1 (hydro 5) (0, 3, 0, 1))"
  have l: "length (ma_data ?m) = length (ma_mask ?m)"
    by simp
  obtain fs where fs: "feature_stats ?f ?m = Inr fs"
    by (simp add: feature_stats_def GetField_def rectangle_def hydro_def hydro_feature_def feature_of_def)
  obtain gs where gs: "get_nlcd_counts ?f ?m = Inr gs"
    by (simp add: get_nlcd_counts_def GetField_def rectangle_def hydro_def hydro_feature_def feature_of_def)
  have "TotalPixels fs = 2 \<and> class_sum fs = 1 \<and> TotalPixels gs = 2 \<and> class_sum gs = 1"
    using total_pixels_conservation [OF l fs gs] by (simp add: class_codes_def)
  with fs gs show ?thesis by blast
qed

subsection \<open>The grouped sums\<close>

text \<open>
  Claim C4. In every record of \<^verbatim>\<open>get_nlcd_counts\<close> each grouped sum is the sum of the
  counts of its classes: group 1 of 11 and 12, group 2 of 21 to 24, group 3 of 31,
  group 4 of 41 to 43, group 5 of 51 and 52, group 7 of 71 to 74, group 8 of 81 and 82,
  group 9 of 90 and 95, whatever the masked array holds.
\<close>

theorem group_sum_identity:
  assumes "get_nlcd_counts feat masked = Inr gs"
  shows "lulc_1 gs = lulc_11 gs + lulc_12 gs
       \<and> lulc_2 gs = lulc_21 gs + lulc_22 gs + lulc_23 gs + lulc_24 gs
       \<and> lulc_3 gs = lulc_31 gs
       \<and> lulc_4 gs = lulc_41 gs + lulc_42 gs + lulc_43 gs
       \<and> lulc_5 gs = lulc_51 gs + lulc_52 gs
       \<and> lulc_7 gs = lulc_71 gs + lulc_72 gs + lulc_73 gs + lulc_74 gs
       \<and> lulc_8 gs = lulc_81 gs + lulc_82 gs
       \<and> lulc_9 gs = lulc_90 gs + lulc_95 gs"
  using get_nlcd_counts_fields(3-10) [OF assms] by blast

theorem group_sum_identity_witness:
  "\<exists>gs.
     get_nlcd_counts (hydro_feature (rectangle 1 (hydro 5) (0, 3, 0, 1)))
       \<lparr>ma_shape = [1, 3], ma_data = [Some 21, Some 22, Some 11],
        ma_mask = [False, False, True]\<rparr> = Inr gs \<and>
     lulc_21 gs = 1 \<and> lulc_22 gs = 1 \<and> lulc_23 gs = 0 \<and> lulc_24 gs = 0 \<and> lulc_2 gs = 2"
proof -
  let ?m = "\<lparr>ma_shape = [1, 3], ma_data = [Some 21, Some 22, Some 11],
             ma_mask = [False, False, True]\<rparr>"
  let ?f = "hydro_feature (rectangle 1 (hydro 5) (0, 3, 0, 1))"
  obtain gs where gs: "get_nlcd_counts ?f ?m = Inr gs"
    by (simp add: get_nlcd_counts_def GetField_def rectangle_def hydro_def hydro_feature_def feature_of_def)
  have c: "lulc_21 gs = 1 \<and> lulc_22 gs = 1 \<and> lulc_23 gs = 0 \<and> lulc_24 gs = 0"
    using gs
    by (auto simp: get_nlcd_counts_def GetField_def rectangle_def hydro_def hydro_feature_def feature_of_def
        np_count_nonzero_def ma_eq_def)
  have "lulc_2 gs = 2"
    using group_sum_identity [OF gs] c by simp
  with gs c show ?thesis by blast
qed

subsection \<open>The loop over the features\<close>

lemmas run_defs =
  zonal_stats_def zonal_stats_io_def read_source_def bbox_to_pixel_offsets_def py_div_def
  py_int_def ReadAsArray_def mask_and_count_def rasterize_def exclusion_mask_def array_eq_def
  np_logical_or_def np_logical_not_def MaskedArray_def np_array_def asize_def new_gt_def
  py_truth_def SetNoDataValue_def cell_indices_def feature_stats_def GetField_def

lemmas example_defs =
  rectangle_def filled_raster_def north_up_def south_up_def hydro_def hydro_layer_def
  hydro_feature_def GetFeatures_def feature_of_def

lemma mask_and_count_fields:
  assumes "mask_and_count nodata_value src feat = Inr fs"
  shows "FID fs = GetFID feat"
    and "HydroID fs = (case attributes feat ''HydroID'' of None \<Rightarrow> FNull | Some v \<Rightarrow> v)"
    and "''HydroID'' \<in> set (GetDefnRef feat)"
proof -
  from assms obtain m where "feature_stats feat m = Inr fs"
    by (auto simp: mask_and_count_def split: prod.splits sum.splits)
  then show "FID fs = GetFID feat"
    and "HydroID fs = (case attributes feat ''HydroID'' of None \<Rightarrow> FNull | Some v \<Rightarrow> v)"
    and "''HydroID'' \<in> set (GetDefnRef feat)"
    by (auto simp: feature_stats_def GetField_def split: sum.splits if_splits)
qed

lemma mask_and_count_KeyError:
  assumes "''HydroID'' \<notin> set (GetDefnRef feat)"
  shows "\<exists>e. mask_and_count nodata_value src feat = Inl e"
proof (cases "mask_and_count nodata_value src feat")
  case (Inl e)
  then show ?thesis by blast
next
  case (Inr fs)
  from mask_and_count_fields(3) [OF Inr] assms show ?thesis by simp
qed

text \<open>The source that the loop uses for a feature, when it can be read.\<close>

lemma features_loop_Inr:
  assumes "features_loop rb nodata_value global_src feats stats reads = Inr (stats', reads')"
  shows "\<exists>new. stats' = stats @ new \<and>
           list_all2 (\<lambda>fs feat. \<exists>src. mask_and_count nodata_value src feat = Inr fs) new feats"
proof -
  define P where "P = (\<lambda>fs feat. \<exists>src. mask_and_count nodata_value src feat = Inr fs)"
  have "\<exists>new. stats' = stats @ new \<and> list_all2 P new feats"
    using assms
  proof (induction feats arbitrary: stats reads)
    case Nil
    then show ?case by simp
  next
    case (Cons feat rest)
    from Cons.prems obtain src r fs where
      step: "mask_and_count nodata_value src feat = Inr fs" and
      loop: "features_loop rb nodata_value global_src rest (stats @ [fs]) r = Inr (stats', reads')"
      by (auto split: sum.splits prod.splits)
    from Cons.IH [OF loop] obtain new where
      new: "stats' = (stats @ [fs]) @ new" "list_all2 P new rest"
      by blast
    from step have "P fs feat"
      unfolding P_def by blast
    with new have "stats' = stats @ (fs # new)" "list_all2 P (fs # new) (feat # rest)"
      by simp_all
    then show ?case by blast
  qed
  then show ?thesis
    unfolding P_def .
qed

lemma features_loop_Inl:
  assumes "feat \<in> set feats" and "\<And>src. \<exists>e. mask_and_count nodata_value src feat = Inl e"
  shows "\<exists>e. features_loop rb nodata_value global_src feats stats reads = Inl e"
proof (cases "features_loop rb nodata_value global_src feats stats reads")
  case (Inl e)
  then show ?thesis by blast
next
  case (Inr res)
  obtain stats' reads' where "res = (stats', reads')" by (cases res)
  with Inr features_loop_Inr obtain new where
    "list_all2 (\<lambda>fs feat. \<exists>src. mask_and_count nodata_value src feat = Inr fs) new feats"
    by blast
  with assms(1) obtain fs src where "mask_and_count nodata_value src feat = Inr fs"
    by (auto simp: list_all2_conv_all_nth in_set_conv_nth)
  with assms(2) [of src] show ?thesis by simp
qed

lemma zonal_stats_Inr:
  assumes "zonal_stats vds rds nodata_value global_src_extent = Inr stats"
  shows "\<exists>rb vlyr global_src reads reads'.
           vds = Some vlyr \<and>
           features_loop rb nodata_value global_src (GetFeatures vlyr) [] reads =
             Inr (stats, reads')"
  using assms
  by (auto simp: zonal_stats_def zonal_stats_io_def Let_def
      split: sum.splits option.splits prod.splits if_splits)

lemma zonal_stats_Inl:
  assumes "\<And>rb global_src reads.
             \<exists>e. features_loop rb nodata_value global_src (GetFeatures vlyr) [] reads = Inl e"
  shows "\<exists>e. zonal_stats (Some vlyr) rds nodata_value global_src_extent = Inl e"
proof (cases "zonal_stats (Some vlyr) rds nodata_value global_src_extent")
  case (Inl e)
  then show ?thesis by blast
next
  case (Inr stats)
  from zonal_stats_Inr [OF Inr] obtain rb global_src reads reads' where
    "features_loop rb nodata_value global_src (GetFeatures vlyr) [] reads = Inr (stats, reads')"
    by auto
  with assms [of rb global_src reads] show ?thesis by simp
qed

text \<open>
  Claim C6. A successful run over a vector source of \<open>N\<close> features returns exactly \<open>N\<close>
  records, the \<open>i\<close>-th being the record tabulated for the \<open>i\<close>-th feature in iteration
  order: it carries that feature's \<open>FID\<close> and \<open>HydroID\<close>.
\<close>

theorem zonal_stats_order:
  assumes "zonal_stats vds rds nodata_value global_src_extent = Inr stats"
  shows "\<exists>vlyr. vds = Some vlyr
       \<and> length stats = length (rows vlyr)
       \<and> length stats = length (GetFeatures vlyr)
       \<and> map FID stats = map GetFID (GetFeatures vlyr)
       \<and> map HydroID stats =
           map (\<lambda>feat. case attributes feat ''HydroID'' of None \<Rightarrow> FNull | Some v \<Rightarrow> v)
             (GetFeatures vlyr)
       \<and> list_all2 (\<lambda>fs feat. \<exists>src. mask_and_count nodata_value src feat = Inr fs) stats
           (GetFeatures vlyr)"
proof -
  from zonal_stats_Inr [OF assms] obtain rb vlyr global_src reads reads' where
    vds: "vds = Some vlyr" and
    loop: "features_loop rb nodata_value global_src (GetFeatures vlyr) [] reads =
             Inr (stats, reads')"
    by blast
  let ?feats = "GetFeatures vlyr"
  from features_loop_Inr [OF loop] have
    all: "list_all2 (\<lambda>fs feat. \<exists>src. mask_and_count nodata_value src feat = Inr fs) stats ?feats"
    by simp
  then have len: "length stats = length ?feats"
    by (rule list_all2_lengthD)
  then have len': "length stats = length (rows vlyr)"
    by (simp add: GetFeatures_def)
  have "FID (stats ! i) = GetFID (?feats ! i) \<and>
        HydroID (stats ! i) =
          (case attributes (?feats ! i) ''HydroID'' of None \<Rightarrow> FNull | Some v \<Rightarrow> v)"
    if "i < length ?feats" for i
  proof -
    from all that obtain src where
      "mask_and_count nodata_value src (?feats ! i) = Inr (stats ! i)"
      by (auto simp: list_all2_conv_all_nth)
    from mask_and_count_fields(1,2) [OF this] show ?thesis by simp
  qed
  with len have "map FID stats = map GetFID ?feats"
    "map HydroID stats =
       map (\<lambda>feat. case attributes feat ''HydroID'' of None \<Rightarrow> FNull | Some v \<Rightarrow> v) ?feats"
    by (auto simp: list_eq_iff_nth_eq)
  with vds len len' all show ?thesis by blast
qed

theorem zonal_stats_order_witness:
  "\<exists>stats.
     zonal_stats
       (Some (hydro_layer [rectangle 4 (hydro 40) (1 / 2, 3 / 2, 17 / 2, 19 / 2),
                           rectangle 2 (hydro 20) (5 / 2, 7 / 2, 9 / 2, 11 / 2)]))
       (Some (filled_raster north_up 10 10 21)) None False = Inr stats \<and>
     length stats = 2 \<and> map FID stats = [4, 2] \<and>
     map HydroID stats = [FInt 40, FInt 20]"
proof -
  let ?vlyr = "hydro_layer [rectangle 4 (hydro 40) (1 / 2, 3 / 2, 17 / 2, 19 / 2),
                            rectangle 2 (hydro 20) (5 / 2, 7 / 2, 9 / 2, 11 / 2)]"
  obtain stats where run:
    "zonal_stats (Some ?vlyr) (Some (filled_raster north_up 10 10 21)) None False = Inr stats"
    by (simp add: run_defs example_defs)
  from zonal_stats_order [OF run]
  have "length stats = 2 \<and> map FID stats = [4, 2] \<and> map HydroID stats = [FInt 40, FInt 20]"
    by (simp add: example_defs)
  with run show ?thesis
    by (intro exI [of _ stats]) simp
qed

subsection \<open>A layer without features\<close>

text \<open>
  Claim C10. In local-extent mode, for a raster that opens and a vector source with no
  feature, \<^verbatim>\<open>zonal_stats\<close> returns the empty sequence, reads no window of the raster and
  raises nothing.
\<close>

theorem zonal_stats_no_features:
  "zonal_stats_io (Some \<lparr>GetLayerDefn = defn, rows = []\<rparr>) (Some rb) nodata_value False
     = Inr ([], [])
   \<and> zonal_stats (Some \<lparr>GetLayerDefn = defn, rows = []\<rparr>) (Some rb) nodata_value False
     = Inr []"
  by (simp add: zonal_stats_def zonal_stats_io_def GetFeatures_def Let_def)

theorem zonal_stats_no_features_witness:
  "zonal_stats_io (Some (hydro_layer [])) (Some (filled_raster north_up 10 10 21)) (Some 21)
     False = Inr ([], [])"
  using zonal_stats_no_features [of "[''HydroID'']" "filled_raster north_up 10 10 21" "Some 21"]
  by (simp add: hydro_layer_def)

subsection \<open>Reading and masking a window\<close>

lemma read_source_SetNoDataValue:
  "read_source (SetNoDataValue rb v) bbox reads = read_source rb bbox reads"
  by (simp add: read_source_def SetNoDataValue_def ReadAsArray_def
      split: sum.split prod.split)

lemma features_loop_SetNoDataValue:
  "features_loop (SetNoDataValue rb v) nodata_value global_src feats stats reads =
   features_loop rb nodata_value global_src feats stats reads"
proof (induction feats arbitrary: stats reads)
  case Nil
  show ?case by simp
next
  case (Cons feat rest)
  show ?case
    unfolding features_loop.simps read_source_SetNoDataValue Cons.IH by (rule refl)
qed

lemma zonal_stats_io_local:
  "zonal_stats_io (Some vlyr) (Some rb) nodata_value False =
     features_loop rb nodata_value None (GetFeatures vlyr) [] []"
  by (simp add: zonal_stats_io_def Let_def features_loop_SetNoDataValue)

lemma zonal_stats_io_global:
  "zonal_stats_io (Some vlyr) (Some rb) nodata_value True =
     (case read_source rb (GetExtent (GetFeatures vlyr)) [] of
        Inl e \<Rightarrow> Inl e
      | Inr (src, reads) \<Rightarrow>
          features_loop rb nodata_value (Some src) (GetFeatures vlyr) [] reads)"
  by (simp add: zonal_stats_io_def Let_def features_loop_SetNoDataValue
      read_source_SetNoDataValue cong: sum.case_cong prod.case_cong)

lemma read_source_Inr:
  assumes "read_source rb bbox reads = Inr (src, reads')"
  shows "\<exists>win arr. bbox_to_pixel_offsets (GetGeoTransform rb) bbox = Inr win \<and>
           ReadAsArray rb win = Inr arr \<and>
           src = (win, arr, new_gt (GetGeoTransform rb) win) \<and> reads' = reads @ [win]"
  using assms by (auto simp: read_source_def split: sum.splits)

lemma ReadAsArray_in_raster:
  assumes "window_in_raster rb (x1, y1, xsize, ysize)"
  shows "ReadAsArray rb (x1, y1, xsize, ysize) =
           Inr (Some \<lparr>shape = [nat ysize, nat xsize],
                       buf = map (\<lambda>(j, i). pixel rb (x1 + int i) (y1 + int j))
                                 (cell_indices xsize ysize)\<rparr>)"
  using assms by (auto simp: window_in_raster_def ReadAsArray_def)

lemma ReadAsArray_outside:
  assumes "\<not> window_in_raster rb (x1, y1, xsize, ysize)" and "1 \<le> xsize" and "1 \<le> ysize"
  shows "ReadAsArray rb (x1, y1, xsize, ysize) = Inr None"
  using assms by (auto simp: window_in_raster_def ReadAsArray_def)

text \<open>The masked array of a window that was read.\<close>

lemma mask_and_count_Some:
  assumes "1 \<le> xsize" and "1 \<le> ysize"
  shows "mask_and_count nodata_value
           ((x1, y1, xsize, ysize),
            Some \<lparr>shape = [nat ysize, nat xsize], buf = map f (cell_indices xsize ysize)\<rparr>, gt)
           feat =
         feature_stats feat
           \<lparr>ma_shape = [nat ysize, nat xsize],
            ma_data = map (\<lambda>p. Some (f p)) (cell_indices xsize ysize),
            ma_mask = map (\<lambda>p. nodata_value = Some (f p) \<or>
                               \<not> (case p of (j, i) \<Rightarrow>
                                     covers feat (gt0 gt + (real i + 1 / 2) * gt1 gt)
                                                 (gt3 gt + (real j + 1 / 2) * gt5 gt)))
                          (cell_indices xsize ysize)\<rparr>"
proof -
  let ?cells = "cell_indices xsize ysize"
  let ?cov = "\<lambda>(j, i). covers feat (gt0 gt + (real i + 1 / 2) * gt1 gt)
                                    (gt3 gt + (real j + 1 / 2) * gt5 gt)"
  let ?arr = "\<lparr>shape = [nat ysize, nat xsize], buf = map f ?cells\<rparr>"
  let ?rv = "\<lparr>shape = [nat ysize, nat xsize], buf = map ?cov ?cells\<rparr>"
  let ?msk = "\<lparr>shape = shape ?arr,
               buf = map (\<lambda>(v, c). nodata_value = Some v \<or> \<not> c) (zip (buf ?arr) (buf ?rv))\<rparr>"
  have r: "rasterize gt xsize ysize feat = Inr ?rv"
    using assms by (simp add: rasterize_def)
  have e: "exclusion_mask (Some ?arr) nodata_value ?rv = Inr ?msk"
    by (rule exclusion_mask_Some) simp
  have m: "MaskedArray (Some ?arr) ?msk =
             Inr \<lparr>ma_shape = shape ?arr, ma_data = map Some (buf ?arr), ma_mask = buf ?msk\<rparr>"
    by (rule MaskedArray_same_shape) simp
  have b: "buf ?msk = map (\<lambda>p. nodata_value = Some (f p) \<or> \<not> ?cov p) ?cells"
    by (simp add: zip_map_map zip_same_conv_map o_def)
  show ?thesis
    unfolding mask_and_count_def prod.case r e m sum.case b by (simp add: o_def)
qed

text \<open>A window that was not read: the data is \<^verbatim>\<open>None\<close> and the mask has the window's shape.\<close>

lemma mask_and_count_None:
  assumes "1 \<le> xsize" and "1 \<le> ysize" and "xsize * ysize \<noteq> 1"
  shows "mask_and_count nodata_value ((x1, y1, xsize, ysize), None, gt) feat = Inl MaskError"
proof -
  let ?cells = "cell_indices xsize ysize"
  let ?cov = "\<lambda>(j, i). covers feat (gt0 gt + (real i + 1 / 2) * gt1 gt)
                                    (gt3 gt + (real j + 1 / 2) * gt5 gt)"
  let ?rv = "\<lparr>shape = [nat ysize, nat xsize], buf = map ?cov ?cells\<rparr>"
  let ?msk = "\<lparr>shape = [nat ysize, nat xsize],
               buf = map (\<lambda>c. nodata_value = None \<or> c) (map Not (buf ?rv))\<rparr>"
  have r: "rasterize gt xsize ysize feat = Inr ?rv"
    using assms by (simp add: rasterize_def)
  have e: "exclusion_mask None nodata_value ?rv = Inr ?msk"
    by (simp add: exclusion_mask_def array_eq_def np_logical_or_def np_logical_not_def)
  have "nat ysize * nat xsize = nat (xsize * ysize)"
    using assms by (simp add: nat_mult_distrib mult.commute)
  with assms have "nat ysize * nat xsize \<noteq> 1"
    by auto
  then have m: "MaskedArray None ?msk = Inl MaskError"
    by (simp add: MaskedArray_def np_array_def asize_def Let_def)
  show ?thesis
    unfolding mask_and_count_def prod.case r e m sum.case by simp
qed

lemma mask_and_count_empty:
  assumes "xsize < 1 \<or> ysize < 1"
  shows "mask_and_count nodata_value ((x1, y1, xsize, ysize), arr, gt) feat = Inl AttributeError"
  using assms by (auto simp: mask_and_count_def rasterize_def)

subsection \<open>A window outside the raster\<close>

lemma features_loop_local_Inl:
  assumes "feat \<in> set feats"
      and "\<And>reads src reads'. read_source rb (GetEnvelope feat) reads = Inr (src, reads') \<Longrightarrow>
             \<exists>e. mask_and_count nodata_value src feat = Inl e"
  shows "\<exists>e. features_loop rb nodata_value None feats stats reads = Inl e"
  using assms(1)
proof (induction feats arbitrary: stats reads)
  case Nil
  then show ?case by simp
next
  case (Cons f rest)
  show ?case
  proof (cases "read_source rb (GetEnvelope f) reads")
    case (Inl e)
    then show ?thesis by simp
  next
    case (Inr res)
    obtain src reads' where res: "res = (src, reads')" by (cases res)
    show ?thesis
    proof (cases "mask_and_count nodata_value src f")
      case (Inl e)
      with Inr res show ?thesis by simp
    next
      case step: (Inr fs)
      with assms(2) Inr res have "f \<noteq> feat" by fastforce
      with Cons.prems have "feat \<in> set rest" by simp
      from Cons.IH [OF this] Inr res step show ?thesis by simp
    qed
  qed
qed

lemma local_step_outside:
  assumes "bbox_to_pixel_offsets (GetGeoTransform rb) (GetEnvelope feat) = Inr (x1, y1, xsize, ysize)"
      and "\<not> window_in_raster rb (x1, y1, xsize, ysize)"
      and "xsize * ysize \<noteq> 1"
      and "read_source rb (GetEnvelope feat) reads = Inr (src, reads')"
  shows "\<exists>e. mask_and_count nodata_value src feat = Inl e"
    and "1 \<le> xsize \<Longrightarrow> 1 \<le> ysize \<Longrightarrow> mask_and_count nodata_value src feat = Inl MaskError"
proof -
  from read_source_Inr [OF assms(4)] assms(1) obtain arr where
    arr: "ReadAsArray rb (x1, y1, xsize, ysize) = Inr arr" and
    src: "src = ((x1, y1, xsize, ysize), arr, new_gt (GetGeoTransform rb) (x1, y1, xsize, ysize))"
    by auto
  have pos: "mask_and_count nodata_value src feat = Inl MaskError" if "1 \<le> xsize" "1 \<le> ysize"
  proof -
    from ReadAsArray_outside [OF assms(2) that] arr have "arr = None" by simp
    with src mask_and_count_None [OF that assms(3)] show ?thesis by simp
  qed
  then show "1 \<le> xsize \<Longrightarrow> 1 \<le> ysize \<Longrightarrow> mask_and_count nodata_value src feat = Inl MaskError" .
  show "\<exists>e. mask_and_count nodata_value src feat = Inl e"
  proof (cases "1 \<le> xsize \<and> 1 \<le> ysize")
    case True
    with pos show ?thesis by blast
  next
    case False
    then have "xsize < 1 \<or> ysize < 1" by auto
    from mask_and_count_empty [OF this] src show ?thesis by blast
  qed
qed

text \<open>
  Claim C7, as amended. In local-extent mode, a feature whose pixel window is not inside
  the raster, and is not a window of exactly one cell, aborts the run: \<^verbatim>\<open>zonal_stats\<close>
  raises and returns no record at all. When the window has a positive width and height
  the read returns \<^verbatim>\<open>None\<close> and the masked array is refused with MaskError.
\<close>

theorem window_outside_raster_raises:
  assumes "feat \<in> set (GetFeatures vlyr)"
      and "bbox_to_pixel_offsets (GetGeoTransform rb) (GetEnvelope feat) = Inr (x1, y1, xsize, ysize)"
      and "\<not> window_in_raster rb (x1, y1, xsize, ysize)"
      and "xsize * ysize \<noteq> 1"
  shows "(\<exists>e. zonal_stats (Some vlyr) (Some rb) nodata_value False = Inl e)
       \<and> (1 \<le> xsize \<and> 1 \<le> ysize \<longrightarrow>
            (\<forall>single. GetFeatures single = [feat] \<longrightarrow>
               zonal_stats (Some single) (Some rb) nodata_value False = Inl MaskError))"
proof -
  note step = local_step_outside [OF assms(2,3,4)]
  have "\<exists>e. features_loop rb nodata_value None (GetFeatures vlyr) [] [] = Inl e"
    using assms(1) step(1) by (rule features_loop_local_Inl)
  then have 1: "\<exists>e. zonal_stats (Some vlyr) (Some rb) nodata_value False = Inl e"
    by (auto simp: zonal_stats_def zonal_stats_io_local)
  have 2: "zonal_stats (Some single) (Some rb) nodata_value False = Inl MaskError"
    if "1 \<le> xsize" "1 \<le> ysize" "GetFeatures single = [feat]" for single
  proof (cases "read_source rb (GetEnvelope feat) []")
    case (Inl e)
    with assms(2) ReadAsArray_outside [OF assms(3) that(1,2)] show ?thesis
      by (simp add: read_source_def)
  next
    case (Inr res)
    obtain src reads' where res: "res = (src, reads')" by (cases res)
    from step(2) [OF _ that(1,2)] Inr res
    have "mask_and_count nodata_value src feat = Inl MaskError"
      by simp
    with Inr res that(3) show ?thesis
      by (simp add: zonal_stats_def zonal_stats_io_local)
  qed
  from 1 2 show ?thesis by blast
qed

theorem window_outside_raster_raises_witness:
  "bbox_to_pixel_offsets north_up (20, 25, 3, 6) = Inr (20, 4, 6, 4) \<and>
   \<not> window_in_raster (filled_raster north_up 10 10 21) (20, 4, 6, 4) \<and>
   zonal_stats (Some (hydro_layer [rectangle 0 (hydro 7) (20, 25, 3, 6)]))
     (Some (filled_raster north_up 10 10 21)) (Some 0) False = Inl MaskError"
proof -
  let ?f = "hydro_feature (rectangle 0 (hydro 7) (20, 25, 3, 6))"
  let ?vlyr = "hydro_layer [rectangle 0 (hydro 7) (20, 25, 3, 6)]"
  let ?rb = "filled_raster north_up 10 10 21"
  have g: "GetFeatures ?vlyr = [?f]"
    by (simp add: hydro_layer_def hydro_feature_def GetFeatures_def)
  then have m: "?f \<in> set (GetFeatures ?vlyr)"
    by simp
  have b: "bbox_to_pixel_offsets (GetGeoTransform ?rb) (GetEnvelope ?f) = Inr (20, 4, 6, 4)"
    by (simp add: bbox_to_pixel_offsets_def py_div_def py_int_def example_defs)
  have w: "\<not> window_in_raster ?rb (20, 4, 6, 4)"
    by (simp add: window_in_raster_def example_defs)
  have n: "(6 :: int) * 4 \<noteq> 1"
    by simp
  from window_outside_raster_raises [OF m b w n, of "Some 0"] g
  have "zonal_stats (Some ?vlyr) (Some ?rb) (Some 0) False = Inl MaskError"
    by simp
  moreover from b have "bbox_to_pixel_offsets north_up (20, 25, 3, 6) = Inr (20, 4, 6, 4)"
    by (simp add: example_defs)
  ultimately show ?thesis
    using w by simp
qed

text \<open>
  Claim C7 as it is written fails: the envelope \<open>[20, 25] \<times> [3, 6]\<close> lies outside the
  extent \<open>[0, 10] \<times> [0, 10]\<close> of the raster, and the run raises instead of returning a
  record of zeros.
\<close>

theorem outside_raster_counterexample:
  "zonal_stats (Some (hydro_layer [rectangle 0 (hydro 7) (20, 25, 3, 6)]))
     (Some (filled_raster north_up 10 10 21)) None False = Inl MaskError"
  by (simp add: run_defs example_defs)

subsection \<open>A raster filled with its no-data value\<close>

lemma all_masked_counts:
  "ma_count \<lparr>ma_shape = s, ma_data = map d xs, ma_mask = map (\<lambda>p. True) xs\<rparr> = 0"
  "np_count_nonzero (ma_eq \<lparr>ma_shape = s, ma_data = map d xs, ma_mask = map (\<lambda>p. True) xs\<rparr> c) = 0"
  by (simp_all add: ma_count_def np_count_nonzero_def ma_eq_def filter_map o_def zip_map_map
      case_prod_unfold)

text \<open>
  Claim C8, as amended. For a 10 by 10 raster filled with the value 21, the no-data value
  21 and a layer with the field \<open>HydroID\<close> and one polygon whose pixel window lies inside the
  raster, the run returns a single record with \<open>TotalPixels = 0\<close> and every class count 0,
  in either mode.
\<close>

theorem nodata_fill_all_zero:
  assumes "bbox_to_pixel_offsets gt (GetEnvelope feat) = Inr (x1, y1, xsize, ysize)"
      and "window_in_raster (filled_raster gt 10 10 21) (x1, y1, xsize, ysize)"
      and "GetFeatures vlyr = [feat]"
      and "''HydroID'' \<in> set (GetDefnRef feat)"
  shows "zonal_stats (Some vlyr) (Some (filled_raster gt 10 10 21)) (Some 21) global_src_extent =
           Inr [\<lparr>FID = GetFID feat,
                 HydroID = (case attributes feat ''HydroID'' of None \<Rightarrow> FNull | Some v \<Rightarrow> v),
                 TotalPixels = 0,
                 lulc_11 = 0, lulc_12 = 0, lulc_21 = 0, lulc_22 = 0, lulc_23 = 0, lulc_24 = 0,
                 lulc_31 = 0, lulc_41 = 0, lulc_42 = 0, lulc_43 = 0, lulc_51 = 0, lulc_52 = 0,
                 lulc_71 = 0, lulc_72 = 0, lulc_73 = 0, lulc_74 = 0, lulc_81 = 0, lulc_82 = 0,
                 lulc_90 = 0, lulc_95 = 0\<rparr>]"
proof -
  let ?rb = "filled_raster gt 10 10 21"
  let ?win = "(x1, y1, xsize, ysize)"
  let ?arr = "\<lparr>shape = [nat ysize, nat xsize],
               buf = map (\<lambda>p. 21 :: real) (cell_indices xsize ysize)\<rparr>"
  let ?zero = "\<lparr>FID = GetFID feat,
                 HydroID = (case attributes feat ''HydroID'' of None \<Rightarrow> FNull | Some v \<Rightarrow> v),
                 TotalPixels = 0,
                 lulc_11 = 0, lulc_12 = 0, lulc_21 = 0, lulc_22 = 0, lulc_23 = 0, lulc_24 = 0,
                 lulc_31 = 0, lulc_41 = 0, lulc_42 = 0, lulc_43 = 0, lulc_51 = 0, lulc_52 = 0,
                 lulc_71 = 0, lulc_72 = 0, lulc_73 = 0, lulc_74 = 0, lulc_81 = 0, lulc_82 = 0,
                 lulc_90 = 0, lulc_95 = 0\<rparr>"
  have gt: "GetGeoTransform ?rb = gt"
    by (simp add: filled_raster_def)
  have size: "1 \<le> xsize" "1 \<le> ysize"
    using assms(2) by (simp_all add: window_in_raster_def)
  have "ReadAsArray ?rb ?win = Inr (Some ?arr)"
    using ReadAsArray_in_raster [OF assms(2)] by (simp add: filled_raster_def case_prod_unfold)
  with assms(1) have read: "read_source ?rb (GetEnvelope feat) [] =
      Inr ((?win, Some ?arr, new_gt gt ?win), [?win])"
    by (simp add: read_source_def gt)
  have step: "mask_and_count (Some 21) (?win, Some ?arr, new_gt gt ?win) feat = Inr ?zero"
    unfolding mask_and_count_Some [OF size]
    using assms(4) by (simp add: feature_stats_def GetField_def all_masked_counts)
  show ?thesis
  proof (cases global_src_extent)
    case True
    with read step assms(3) show ?thesis
      by (simp add: zonal_stats_def zonal_stats_io_global)
  next
    case False
    with read step assms(3) show ?thesis
      by (simp add: zonal_stats_def zonal_stats_io_local)
  qed
qed

theorem nodata_fill_all_zero_witness:
  "bbox_to_pixel_offsets north_up (0, 19 / 2, 1 / 2, 10) = Inr (0, 0, 10, 10) \<and>
   window_in_raster (filled_raster north_up 10 10 21) (0, 0, 10, 10) \<and>
   zonal_stats (Some (hydro_layer [rectangle 3 (hydro 7) (0, 19 / 2, 1 / 2, 10)]))
     (Some (filled_raster north_up 10 10 21)) (Some 21) False =
     Inr [\<lparr>FID = 3, HydroID = FInt 7, TotalPixels = 0,
           lulc_11 = 0, lulc_12 = 0, lulc_21 = 0, lulc_22 = 0, lulc_23 = 0, lulc_24 = 0,
           lulc_31 = 0, lulc_41 = 0, lulc_42 = 0, lulc_43 = 0, lulc_51 = 0, lulc_52 = 0,
           lulc_71 = 0, lulc_72 = 0, lulc_73 = 0, lulc_74 = 0, lulc_81 = 0, lulc_82 = 0,
           lulc_90 = 0, lulc_95 = 0\<rparr>]"
proof -
  let ?f = "hydro_feature (rectangle 3 (hydro 7) (0, 19 / 2, 1 / 2, 10))"
  let ?vlyr = "hydro_layer [rectangle 3 (hydro 7) (0, 19 / 2, 1 / 2, 10)]"
  have b: "bbox_to_pixel_offsets north_up (GetEnvelope ?f) = Inr (0, 0, 10, 10)"
    by (simp add: bbox_to_pixel_offsets_def py_div_def py_int_def example_defs)
  have w: "window_in_raster (filled_raster north_up 10 10 21) (0, 0, 10, 10)"
    by (simp add: window_in_raster_def example_defs)
  have g: "GetFeatures ?vlyr = [?f]"
    by (simp add: hydro_layer_def hydro_feature_def GetFeatures_def)
  have a: "''HydroID'' \<in> set (GetDefnRef ?f)"
    by (simp add: hydro_feature_def feature_of_def)
  from nodata_fill_all_zero [OF b w g a, of False]
  have "zonal_stats (Some ?vlyr) (Some (filled_raster north_up 10 10 21)) (Some 21) False =
     Inr [\<lparr>FID = 3, HydroID = FInt 7, TotalPixels = 0,
           lulc_11 = 0, lulc_12 = 0, lulc_21 = 0, lulc_22 = 0, lulc_23 = 0, lulc_24 = 0,
           lulc_31 = 0, lulc_41 = 0, lulc_42 = 0, lulc_43 = 0, lulc_51 = 0, lulc_52 = 0,
           lulc_71 = 0, lulc_72 = 0, lulc_73 = 0, lulc_74 = 0, lulc_81 = 0, lulc_82 = 0,
           lulc_90 = 0, lulc_95 = 0\<rparr>]"
    by (simp add: example_defs)
  moreover from b
  have "bbox_to_pixel_offsets north_up (0, 19 / 2, 1 / 2, 10) = Inr (0, 0, 10, 10)"
    by (simp add: example_defs)
  ultimately show ?thesis
    using w by simp
qed

text \<open>
  Claim C8 as it is written fails: the polygon that covers the extent \<open>[0, 10] \<times> [0, 10]\<close>
  of the raster exactly has the window \<open>(0, 0, 11, 11)\<close>, one column and one row more than
  the raster has; the read returns \<^verbatim>\<open>None\<close> and the run raises in both modes.
\<close>

theorem full_extent_counterexample:
  "bbox_to_pixel_offsets north_up (0, 10, 0, 10) = Inr (0, 0, 11, 11) \<and>
   zonal_stats (Some (hydro_layer [rectangle 3 (hydro 7) (0, 10, 0, 10)]))
     (Some (filled_raster north_up 10 10 21)) (Some 21) False = Inl MaskError \<and>
   zonal_stats (Some (hydro_layer [rectangle 3 (hydro 7) (0, 10, 0, 10)]))
     (Some (filled_raster north_up 10 10 21)) (Some 21) True = Inl MaskError"
  by (simp add: run_defs example_defs)

subsection \<open>Counting the cells of a window\<close>

lemma masked_window_counts:
  "np_count_nonzero
     (ma_eq \<lparr>ma_shape = s, ma_data = map (\<lambda>p. Some (f p)) cells, ma_mask = map g cells\<rparr> c) =
   length (filter (\<lambda>p. \<not> g p \<and> f p = c) cells)"
  "ma_count \<lparr>ma_shape = s, ma_data = map (\<lambda>p. Some (f p)) cells, ma_mask = map g cells\<rparr> =
   length (filter (\<lambda>p. \<not> g p) cells)"
proof -
  let ?m = "\<lparr>ma_shape = s, ma_data = map (\<lambda>p. Some (f p)) cells, ma_mask = map g cells\<rparr>"
  show "np_count_nonzero (ma_eq ?m c) = length (filter (\<lambda>p. \<not> g p \<and> f p = c) cells)"
    by (simp add: np_count_nonzero_def ma_eq_def zip_map_map zip_same_conv_map filter_map o_def)
  have "length (ma_data ?m) = length (ma_mask ?m)"
    by simp
  from ma_count_filter [OF this]
  show "ma_count ?m = length (filter (\<lambda>p. \<not> g p) cells)"
    by (simp add: zip_map_map zip_same_conv_map filter_map o_def)
qed

lemma window_count:
  "length (filter (\<lambda>(j, i). P (x1 + int i) (y1 + int j)) (cell_indices xsize ysize)) =
   card {(col, row). x1 \<le> col \<and> col < x1 + xsize \<and> y1 \<le> row \<and> row < y1 + ysize \<and> P col row}"
proof -
  let ?cells = "cell_indices xsize ysize"
  let ?f = "\<lambda>(j :: nat, i :: nat). (x1 + int i, y1 + int j)"
  let ?A = "{p \<in> set ?cells. case p of (j, i) \<Rightarrow> P (x1 + int i) (y1 + int j)}"
  have d: "distinct ?cells"
    by (simp add: cell_indices_def distinct_product)
  have "length (filter (\<lambda>(j, i). P (x1 + int i) (y1 + int j)) ?cells) = card ?A"
    using d by (simp add: distinct_card [symmetric])
  also have "\<dots> = card (?f ` ?A)"
    by (rule card_image [symmetric]) (auto simp: inj_on_def)
  also have "?f ` ?A =
    {(col, row). x1 \<le> col \<and> col < x1 + xsize \<and> y1 \<le> row \<and> row < y1 + ysize \<and> P col row}"
  proof (intro set_eqI iffI)
    fix q
    assume "q \<in> ?f ` ?A"
    then show "q \<in> {(col, row). x1 \<le> col \<and> col < x1 + xsize \<and> y1 \<le> row \<and>
                       row < y1 + ysize \<and> P col row}"
      by (auto simp: cell_indices_def)
  next
    fix q
    assume q: "q \<in> {(col, row). x1 \<le> col \<and> col < x1 + xsize \<and> y1 \<le> row \<and>
                       row < y1 + ysize \<and> P col row}"
    obtain col row where cr: "q = (col, row)" by (cases q)
    with q have "(nat (row - y1), nat (col - x1)) \<in> ?A" and "?f (nat (row - y1), nat (col - x1)) = q"
      by (auto simp: cell_indices_def)
    then show "q \<in> ?f ` ?A"
      by (metis (no_types, lifting) image_eqI)
  qed
  finally show ?thesis .
qed

subsection \<open>Truncation is monotone\<close>

lemma ceiling_negative: "a < 0 \<Longrightarrow> \<lceil>a :: real\<rceil> \<le> 0"
  using ceiling_le_iff [of a 0] by simp

lemma floor_nonnegative: "\<not> b < 0 \<Longrightarrow> 0 \<le> \<lfloor>b :: real\<rfloor>"
  using le_floor_iff [of 0 b] by simp

lemma py_int_mono:
  assumes "a \<le> b"
  shows "py_int a \<le> py_int b"
proof -
  have "\<lceil>a\<rceil> \<le> \<lfloor>b\<rfloor>" if "a < 0" "\<not> b < 0"
    using ceiling_negative [OF that(1)] floor_nonnegative [OF that(2)] by (rule order_trans)
  moreover have "\<lfloor>a\<rfloor> \<le> \<lceil>b\<rceil>"
    using assms by (meson ceiling_mono floor_le_ceiling order_trans)
  ultimately show ?thesis
    using assms by (auto simp: py_int_def ceiling_mono floor_mono)
qed

lemma py_int_min: "py_int (min a b) = min (py_int a) (py_int b)"
proof (cases "a \<le> b")
  case True
  with py_int_mono [OF True] show ?thesis by (simp add: min_def)
next
  case False
  then have "b \<le> a" by simp
  from py_int_mono [OF this] False show ?thesis by (simp add: min_def)
qed

lemma py_int_max: "py_int (max a b) = max (py_int a) (py_int b)"
proof (cases "a \<le> b")
  case True
  with py_int_mono [OF True] show ?thesis by (simp add: max_def)
next
  case False
  then have "b \<le> a" by simp
  from py_int_mono [OF this] False show ?thesis by (simp add: max_def)
qed

lemma py_int_below_centre:
  assumes "a \<le> real_of_int k + 1 / 2" and "0 \<le> k"
  shows "py_int a \<le> k"
proof (cases "a < 0")
  case True
  from ceiling_negative [OF True] assms(2) have "\<lceil>a\<rceil> \<le> k" by (rule order_trans)
  with True show ?thesis by (simp add: py_int_def)
next
  case False
  from assms(1) have "a < real_of_int k + 1" by simp
  then have "\<lfloor>a\<rfloor> \<le> k" by (simp add: floor_le_iff)
  with False show ?thesis by (simp add: py_int_def)
qed

lemma py_int_above_centre:
  assumes "real_of_int k + 1 / 2 \<le> b" and "0 \<le> k"
  shows "k < py_int b + 1"
proof -
  from assms have "0 \<le> b" "real_of_int k \<le> b" by simp_all
  then have "k \<le> \<lfloor>b\<rfloor>" by (simp add: le_floor_iff)
  with \<open>0 \<le> b\<close> show ?thesis by (simp add: py_int_def)
qed

subsection \<open>The window of the extent of a layer\<close>

lemma quotient_min_max:
  fixes p :: real
  shows "0 < p \<Longrightarrow> (min a b - c) / p = min ((a - c) / p) ((b - c) / p)"
    and "0 < p \<Longrightarrow> (max a b - c) / p = max ((a - c) / p) ((b - c) / p)"
    and "p < 0 \<Longrightarrow> (min a b - c) / p = max ((a - c) / p) ((b - c) / p)"
    and "p < 0 \<Longrightarrow> (max a b - c) / p = min ((a - c) / p) ((b - c) / p)"
  by (auto simp: min_def max_def divide_le_cancel)

lemma merge_window:
  assumes "0 < gt1 gt" and "gt5 gt < 0"
      and "bbox_to_pixel_offsets gt e = Inr we"
      and "bbox_to_pixel_offsets gt (GetEnvelope f) = Inr wn"
  shows "\<exists>wm. bbox_to_pixel_offsets gt (merge_envelope e f) = Inr wm \<and>
           window_subset we wm \<and> window_subset wn wm \<and>
           (window_in_raster rb we \<longrightarrow> window_in_raster rb wn \<longrightarrow> window_in_raster rb wm)"
proof -
  obtain a b c d where e: "e = (a, b, c, d)" by (cases e)
  obtain a' b' c' d' where f: "GetEnvelope f = (a', b', c', d')" by (cases "GetEnvelope f")
  have nz: "gt1 gt \<noteq> 0" "gt5 gt \<noteq> 0"
    using assms(1,2) by simp_all
  note eq = bbox_to_pixel_offsets_eq [OF nz]
  have we: "we = (py_int ((a - gt0 gt) / gt1 gt), py_int ((d - gt3 gt) / gt5 gt),
                  py_int ((b - gt0 gt) / gt1 gt) + 1 - py_int ((a - gt0 gt) / gt1 gt),
                  py_int ((c - gt3 gt) / gt5 gt) + 1 - py_int ((d - gt3 gt) / gt5 gt))"
    using assms(3) unfolding e eq by simp
  have wn: "wn = (py_int ((a' - gt0 gt) / gt1 gt), py_int ((d' - gt3 gt) / gt5 gt),
                  py_int ((b' - gt0 gt) / gt1 gt) + 1 - py_int ((a' - gt0 gt) / gt1 gt),
                  py_int ((c' - gt3 gt) / gt5 gt) + 1 - py_int ((d' - gt3 gt) / gt5 gt))"
    using assms(4) unfolding f eq by simp
  let ?wm = "(min (py_int ((a - gt0 gt) / gt1 gt)) (py_int ((a' - gt0 gt) / gt1 gt)),
              min (py_int ((d - gt3 gt) / gt5 gt)) (py_int ((d' - gt3 gt) / gt5 gt)),
              max (py_int ((b - gt0 gt) / gt1 gt)) (py_int ((b' - gt0 gt) / gt1 gt)) + 1
                - min (py_int ((a - gt0 gt) / gt1 gt)) (py_int ((a' - gt0 gt) / gt1 gt)),
              max (py_int ((c - gt3 gt) / gt5 gt)) (py_int ((c' - gt3 gt) / gt5 gt)) + 1
                - min (py_int ((d - gt3 gt) / gt5 gt)) (py_int ((d' - gt3 gt) / gt5 gt)))"
  have m: "bbox_to_pixel_offsets gt (merge_envelope e f) = Inr ?wm"
    unfolding merge_envelope_def e f prod.case eq
    by (simp only: quotient_min_max(1,2) [OF assms(1)] quotient_min_max(3,4) [OF assms(2)]
        py_int_min py_int_max)
  have 1: "window_subset we ?wm" and 2: "window_subset wn ?wm"
    unfolding we wn window_subset_def by simp_all
  have 3: "window_in_raster rb ?wm" if "window_in_raster rb we" "window_in_raster rb wn"
    using that unfolding we wn window_in_raster_def prod.case
    by (auto simp: min_def max_def)
  from m 1 2 3 show ?thesis by blast
qed

lemma window_subset_refl: "window_subset win win"
  by (simp add: window_subset_def split: prod.split)

lemma window_subset_trans:
  "window_subset w1 w2 \<Longrightarrow> window_subset w2 w3 \<Longrightarrow> window_subset w1 w3"
  by (auto simp: window_subset_def split: prod.splits)

lemma feature_window_in_rasterD:
  assumes "feature_window_in_raster rb feat"
  obtains win where "bbox_to_pixel_offsets (GetGeoTransform rb) (GetEnvelope feat) = Inr win"
    and "window_in_raster rb win"
  using assms by (auto simp: feature_window_in_raster_def split: sum.splits)

lemma foldl_merge_window:
  assumes "0 < gt1 (GetGeoTransform rb)" and "gt5 (GetGeoTransform rb) < 0"
      and "bbox_to_pixel_offsets (GetGeoTransform rb) e = Inr we"
      and "window_in_raster rb we"
      and "\<forall>f\<in>set fs. feature_window_in_raster rb f"
  shows "\<exists>wg. bbox_to_pixel_offsets (GetGeoTransform rb) (foldl merge_envelope e fs) = Inr wg \<and>
           window_in_raster rb wg \<and> window_subset we wg \<and>
           (\<forall>f\<in>set fs. \<forall>wn.
              bbox_to_pixel_offsets (GetGeoTransform rb) (GetEnvelope f) = Inr wn \<longrightarrow>
              window_subset wn wg)"
  using assms(3,4,5)
proof (induction fs arbitrary: e we)
  case Nil
  then show ?case by (simp add: window_subset_refl)
next
  case (Cons f fs)
  from Cons.prems(3) have "feature_window_in_raster rb f" by simp
  then obtain wn where
    wn: "bbox_to_pixel_offsets (GetGeoTransform rb) (GetEnvelope f) = Inr wn"
      "window_in_raster rb wn"
    by (rule feature_window_in_rasterD)
  from merge_window [OF assms(1,2) Cons.prems(1) wn(1), of rb] Cons.prems(2) wn(2)
  obtain wm where
    wm: "bbox_to_pixel_offsets (GetGeoTransform rb) (merge_envelope e f) = Inr wm"
      "window_subset we wm" "window_subset wn wm" "window_in_raster rb wm"
    by blast
  from Cons.prems(3) have rest: "\<forall>f\<in>set fs. feature_window_in_raster rb f" by simp
  from Cons.IH [OF wm(1) wm(4) rest] obtain wg where
    wg: "bbox_to_pixel_offsets (GetGeoTransform rb) (foldl merge_envelope (merge_envelope e f) fs)
           = Inr wg"
      "window_in_raster rb wg" "window_subset wm wg"
      "\<forall>f\<in>set fs. \<forall>wn. bbox_to_pixel_offsets (GetGeoTransform rb) (GetEnvelope f) = Inr wn \<longrightarrow>
          window_subset wn wg"
    by blast
  have "window_subset we wg"
    using wm(2) wg(3) by (rule window_subset_trans)
  moreover have "window_subset wn wg"
    using wm(3) wg(3) by (rule window_subset_trans)
  ultimately show ?case
    using wg(1,2,4) wn(1) by auto
qed

lemma extent_window:
  assumes "0 < gt1 (GetGeoTransform rb)" and "gt5 (GetGeoTransform rb) < 0"
      and "feats \<noteq> []"
      and "\<forall>f\<in>set feats. feature_window_in_raster rb f"
  shows "\<exists>wg. bbox_to_pixel_offsets (GetGeoTransform rb) (GetExtent feats) = Inr wg \<and>
           window_in_raster rb wg \<and>
           (\<forall>f\<in>set feats. \<forall>wn.
              bbox_to_pixel_offsets (GetGeoTransform rb) (GetEnvelope f) = Inr wn \<longrightarrow>
              window_subset wn wg)"
proof -
  from assms(3) obtain f fs where feats: "feats = f # fs" by (cases feats) auto
  with assms(4) have "feature_window_in_raster rb f" and
    rest: "\<forall>f\<in>set fs. feature_window_in_raster rb f"
    by simp_all
  then obtain wn where
    wn: "bbox_to_pixel_offsets (GetGeoTransform rb) (GetEnvelope f) = Inr wn"
      "window_in_raster rb wn"
    by (auto elim: feature_window_in_rasterD)
  from foldl_merge_window [OF assms(1,2) wn rest] wn(1) show ?thesis
    unfolding feats by auto
qed

subsection \<open>The counts of a window inside the raster\<close>

lemma mask_and_count_window:
  assumes "window_in_raster rb (x1, y1, xsize, ysize)"
  shows "\<exists>m. mask_and_count nodata_value
               ((x1, y1, xsize, ysize),
                Some \<lparr>shape = [nat ysize, nat xsize],
                      buf = map (\<lambda>(j, i). pixel rb (x1 + int i) (y1 + int j))
                                (cell_indices xsize ysize)\<rparr>,
                new_gt (GetGeoTransform rb) (x1, y1, xsize, ysize)) feat
             = feature_stats feat m \<and>
           ma_count m =
             card {(col, row). x1 \<le> col \<and> col < x1 + xsize \<and> y1 \<le> row \<and> row < y1 + ysize \<and>
                               counted rb nodata_value feat col row} \<and>
           (\<forall>c. np_count_nonzero (ma_eq m c) =
             card {(col, row). x1 \<le> col \<and> col < x1 + xsize \<and> y1 \<le> row \<and> row < y1 + ysize \<and>
                               (counted rb nodata_value feat col row \<and> pixel rb col row = c)})"
proof -
  let ?gt = "new_gt (GetGeoTransform rb) (x1, y1, xsize, ysize)"
  let ?f = "\<lambda>(j, i). pixel rb (x1 + int i) (y1 + int j)"
  let ?g = "\<lambda>p. nodata_value = Some (?f p) \<or>
                 \<not> (case p of (j, i) \<Rightarrow>
                       covers feat (gt0 ?gt + (real i + 1 / 2) * gt1 ?gt)
                                   (gt3 ?gt + (real j + 1 / 2) * gt5 ?gt))"
  let ?m = "\<lparr>ma_shape = [nat ysize, nat xsize],
             ma_data = map (\<lambda>p. Some (?f p)) (cell_indices xsize ysize),
             ma_mask = map ?g (cell_indices xsize ysize)\<rparr>"
  have size: "1 \<le> xsize" "1 \<le> ysize"
    using assms by (simp_all add: window_in_raster_def)
  have centre:
    "gt0 ?gt + (real i + 1 / 2) * gt1 ?gt =
       gt0 (GetGeoTransform rb) + (of_int (x1 + int i) + 1 / 2) * gt1 (GetGeoTransform rb)"
    "gt3 ?gt + (real j + 1 / 2) * gt5 ?gt =
       gt3 (GetGeoTransform rb) + (of_int (y1 + int j) + 1 / 2) * gt5 (GetGeoTransform rb)"
    for i j
    by (simp_all add: new_gt_def algebra_simps)
  have g: "(\<not> ?g p) = (case p of (j, i) \<Rightarrow> counted rb nodata_value feat (x1 + int i) (y1 + int j))"
    for p
    unfolding counted_def centre [symmetric] by (simp add: case_prod_unfold)
  have gc: "(\<not> ?g p \<and> ?f p = c) =
      (case p of (j, i) \<Rightarrow> counted rb nodata_value feat (x1 + int i) (y1 + int j) \<and>
                             pixel rb (x1 + int i) (y1 + int j) = c)"
    for p c
    unfolding g by (simp add: case_prod_unfold)
  have 1: "mask_and_count nodata_value
             ((x1, y1, xsize, ysize),
              Some \<lparr>shape = [nat ysize, nat xsize], buf = map ?f (cell_indices xsize ysize)\<rparr>, ?gt)
             feat = feature_stats feat ?m"
    by (rule mask_and_count_Some [OF size])
  have 2: "ma_count ?m =
             card {(col, row). x1 \<le> col \<and> col < x1 + xsize \<and> y1 \<le> row \<and> row < y1 + ysize \<and>
                               counted rb nodata_value feat col row}"
    unfolding masked_window_counts g by (rule window_count)
  have 3: "np_count_nonzero (ma_eq ?m c) =
             card {(col, row). x1 \<le> col \<and> col < x1 + xsize \<and> y1 \<le> row \<and> row < y1 + ysize \<and>
                               (counted rb nodata_value feat col row \<and> pixel rb col row = c)}"
    for c
    unfolding masked_window_counts gc
    by (rule window_count [where P = "\<lambda>col row. counted rb nodata_value feat col row \<and>
                                                    pixel rb col row = c"])
  from 1 2 3 show ?thesis by blast
qed

lemma counted_in_window:
  assumes "0 < gt1 (GetGeoTransform rb)" and "gt5 (GetGeoTransform rb) < 0"
      and "geometry_in_envelope feat"
      and "bbox_to_pixel_offsets (GetGeoTransform rb) (GetEnvelope feat) = Inr (x1, y1, xsize, ysize)"
      and "counted rb nodata_value feat col row" and "0 \<le> col" and "0 \<le> row"
  shows "x1 \<le> col \<and> col < x1 + xsize \<and> y1 \<le> row \<and> row < y1 + ysize"
proof -
  let ?gt = "GetGeoTransform rb"
  obtain a b c d where env: "GetEnvelope feat = (a, b, c, d)" by (cases "GetEnvelope feat")
  have nz: "gt1 ?gt \<noteq> 0" "gt5 ?gt \<noteq> 0"
    using assms(1,2) by simp_all
  from assms(4) have win:
    "x1 = py_int ((a - gt0 ?gt) / gt1 ?gt)"
    "x1 + xsize = py_int ((b - gt0 ?gt) / gt1 ?gt) + 1"
    "y1 = py_int ((d - gt3 ?gt) / gt5 ?gt)"
    "y1 + ysize = py_int ((c - gt3 ?gt) / gt5 ?gt) + 1"
    unfolding env bbox_to_pixel_offsets_eq [OF nz] by simp_all
  from assms(3,5) have box:
    "a \<le> gt0 ?gt + (of_int col + 1 / 2) * gt1 ?gt"
    "gt0 ?gt + (of_int col + 1 / 2) * gt1 ?gt \<le> b"
    "c \<le> gt3 ?gt + (of_int row + 1 / 2) * gt5 ?gt"
    "gt3 ?gt + (of_int row + 1 / 2) * gt5 ?gt \<le> d"
    unfolding geometry_in_envelope_def counted_def env by auto
  have xa: "(a - gt0 ?gt) / gt1 ?gt \<le> real_of_int col + 1 / 2"
    using box(1) assms(1) by (simp add: pos_divide_le_eq algebra_simps)
  have xb: "real_of_int col + 1 / 2 \<le> (b - gt0 ?gt) / gt1 ?gt"
    using box(2) assms(1) by (simp add: pos_le_divide_eq algebra_simps)
  have yd: "(d - gt3 ?gt) / gt5 ?gt \<le> real_of_int row + 1 / 2"
    using box(4) assms(2) by (simp add: neg_divide_le_eq algebra_simps)
  have yc: "real_of_int row + 1 / 2 \<le> (c - gt3 ?gt) / gt5 ?gt"
    using box(3) assms(2) by (simp add: neg_le_divide_eq algebra_simps)
  from py_int_below_centre [OF xa assms(6)] py_int_above_centre [OF xb assms(6)]
    py_int_below_centre [OF yd assms(7)] py_int_above_centre [OF yc assms(7)]
  show ?thesis
    using win by linarith
qed

lemma feature_stats_cong:
  assumes "ma_count m = ma_count m'"
      and "\<And>c. np_count_nonzero (ma_eq m c) = np_count_nonzero (ma_eq m' c)"
  shows "feature_stats feat m = feature_stats feat m'"
  unfolding feature_stats_def assms ..

text \<open>
  The window of the extent and the window of the feature give the same record, when both
  lie inside a north-up raster.
\<close>

lemma feature_modes_agree:
  assumes "0 < gt1 (GetGeoTransform rb)" and "gt5 (GetGeoTransform rb) < 0"
      and "geometry_in_envelope feat"
      and "bbox_to_pixel_offsets (GetGeoTransform rb) (GetEnvelope feat) = Inr wn"
      and "window_in_raster rb wn" and "window_in_raster rb wg" and "window_subset wn wg"
      and "read_source rb bbox reads = Inr ((wg, src_array, gt), reads')"
  shows "\<exists>src r. read_source rb (GetEnvelope feat) reads'' = Inr (src, r) \<and>
           mask_and_count nodata_value src feat =
           mask_and_count nodata_value (wg, src_array, gt) feat"
proof -
  obtain x1 y1 xsize ysize where wn: "wn = (x1, y1, xsize, ysize)" by (cases wn)
  obtain X Y W H where wg: "wg = (X, Y, W, H)" by (cases wg)
  let ?arr = "\<lambda>x1 y1 xsize ysize.
     Some \<lparr>shape = [nat ysize, nat xsize],
           buf = map (\<lambda>(j, i). pixel rb (x1 + int i) (y1 + int j)) (cell_indices xsize ysize)\<rparr>"
  from read_source_Inr [OF assms(8)] ReadAsArray_in_raster [of rb X Y W H] assms(6)
  have g: "src_array = ?arr X Y W H" "gt = new_gt (GetGeoTransform rb) (X, Y, W, H)"
    by (auto simp: wg)
  have l: "read_source rb (GetEnvelope feat) reads'' =
             Inr ((wn, ?arr x1 y1 xsize ysize, new_gt (GetGeoTransform rb) wn), reads'' @ [wn])"
    using assms(4) ReadAsArray_in_raster [of rb x1 y1 xsize ysize] assms(5)
    by (simp add: read_source_def wn)
  from mask_and_count_window [of rb x1 y1 xsize ysize nodata_value feat] assms(5)
  obtain m where m:
    "mask_and_count nodata_value (wn, ?arr x1 y1 xsize ysize, new_gt (GetGeoTransform rb) wn) feat
       = feature_stats feat m"
    "ma_count m =
       card {(col, row). x1 \<le> col \<and> col < x1 + xsize \<and> y1 \<le> row \<and> row < y1 + ysize \<and>
                         counted rb nodata_value feat col row}"
    "\<And>c. np_count_nonzero (ma_eq m c) =
       card {(col, row). x1 \<le> col \<and> col < x1 + xsize \<and> y1 \<le> row \<and> row < y1 + ysize \<and>
                         (counted rb nodata_value feat col row \<and> pixel rb col row = c)}"
    unfolding wn by blast
  from mask_and_count_window [of rb X Y W H nodata_value feat] assms(6)
  obtain M where M:
    "mask_and_count nodata_value (wg, src_array, gt) feat = feature_stats feat M"
    "ma_count M =
       card {(col, row). X \<le> col \<and> col < X + W \<and> Y \<le> row \<and> row < Y + H \<and>
                         counted rb nodata_value feat col row}"
    "\<And>c. np_count_nonzero (ma_eq M c) =
       card {(col, row). X \<le> col \<and> col < X + W \<and> Y \<le> row \<and> row < Y + H \<and>
                         (counted rb nodata_value feat col row \<and> pixel rb col row = c)}"
    unfolding wg g by blast
  have sub: "X \<le> x1" "Y \<le> y1" "x1 + xsize \<le> X + W" "y1 + ysize \<le> Y + H"
    using assms(7) by (simp_all add: window_subset_def wn wg)
  have pos: "0 \<le> X" "0 \<le> Y"
    using assms(6) by (simp_all add: window_in_raster_def wg)
  have inside: "x1 \<le> col \<and> col < x1 + xsize \<and> y1 \<le> row \<and> row < y1 + ysize"
    if "counted rb nodata_value feat col row" "X \<le> col" "Y \<le> row" for col row
  proof -
    from that(2,3) pos have "0 \<le> col" "0 \<le> row" by simp_all
    from counted_in_window [OF assms(1,2,3) assms(4) [unfolded wn] that(1) this]
    show ?thesis .
  qed
  have sets: "{(col, row). X \<le> col \<and> col < X + W \<and> Y \<le> row \<and> row < Y + H \<and>
                  (counted rb nodata_value feat col row \<and> Q col row)} =
              {(col, row). x1 \<le> col \<and> col < x1 + xsize \<and> y1 \<le> row \<and> row < y1 + ysize \<and>
                  (counted rb nodata_value feat col row \<and> Q col row)}" for Q
    using sub inside by (auto simp: set_eq_iff) fastforce+
  have "ma_count M = ma_count m"
    using sets [of "\<lambda>col row. True"] unfolding M(2) m(2) by simp
  moreover have "np_count_nonzero (ma_eq M c) = np_count_nonzero (ma_eq m c)" for c
    unfolding M(3) m(3) by (simp only: sets)
  ultimately have "feature_stats feat M = feature_stats feat m"
    by (rule feature_stats_cong)
  with l m(1) M(1) show ?thesis by simp
qed

subsection \<open>The two extent strategies\<close>

lemma loops_agree:
  assumes "\<forall>feat\<in>set feats. \<forall>reads. \<exists>src r.
             read_source rb (GetEnvelope feat) reads = Inr (src, r) \<and>
             mask_and_count nodata_value src feat = mask_and_count nodata_value gsrc feat"
  shows "(case features_loop rb nodata_value None feats stats r1 of
            Inl e \<Rightarrow> Inl e | Inr (s, r) \<Rightarrow> Inr s) =
         (case features_loop rb nodata_value (Some gsrc) feats stats r2 of
            Inl e \<Rightarrow> Inl e | Inr (s, r) \<Rightarrow> Inr s)"
  using assms
proof (induction feats arbitrary: stats r1 r2)
  case Nil
  show ?case by simp
next
  case (Cons feat rest)
  from Cons.prems obtain src r where
    read: "read_source rb (GetEnvelope feat) r1 = Inr (src, r)" and
    same: "mask_and_count nodata_value src feat = mask_and_count nodata_value gsrc feat"
    by fastforce
  from Cons.prems have rest: "\<forall>feat\<in>set rest. \<forall>reads. \<exists>src r.
             read_source rb (GetEnvelope feat) reads = Inr (src, r) \<and>
             mask_and_count nodata_value src feat = mask_and_count nodata_value gsrc feat"
    by simp
  show ?case
  proof (cases "mask_and_count nodata_value gsrc feat")
    case (Inl e)
    with read same show ?thesis by simp
  next
    case (Inr fs)
    with read same Cons.IH [OF rest, of "stats @ [fs]" r r2] show ?thesis by simp
  qed
qed

lemma read_source_point:
  assumes "gt1 (GetGeoTransform rb) \<noteq> 0" and "gt5 (GetGeoTransform rb) \<noteq> 0"
  shows "\<exists>src r. read_source rb (a, a, c, c) reads = Inr (src, r)"
  using assms
  by (simp add: read_source_def bbox_to_pixel_offsets_eq ReadAsArray_def)

text \<open>
  Claim C5, as amended. For a north-up raster (positive pixel width, negative pixel
  height), a no-data value and a vector source in which the pixel window of every feature
  lies inside the raster and every geometry lies in its envelope, the global-extent and
  the local-extent strategy return the same outcome: the same records with the same
  values in the same order, or the same exception.
\<close>

theorem extent_modes_agree:
  assumes "0 < gt1 (GetGeoTransform rb)" and "gt5 (GetGeoTransform rb) < 0"
      and "\<forall>feat\<in>set (GetFeatures vlyr).
             feature_window_in_raster rb feat \<and> geometry_in_envelope feat"
  shows "zonal_stats (Some vlyr) (Some rb) nodata_value True =
         zonal_stats (Some vlyr) (Some rb) nodata_value False"
proof (cases "GetFeatures vlyr = []")
  case True
  have "gt1 (GetGeoTransform rb) \<noteq> 0" "gt5 (GetGeoTransform rb) \<noteq> 0"
    using assms(1,2) by simp_all
  from read_source_point [OF this, of 0 0 "[]"] obtain src r where
    "read_source rb (0, 0, 0, 0) [] = Inr (src, r)"
    by blast
  with True show ?thesis
    by (simp add: zonal_stats_def zonal_stats_io_global zonal_stats_io_local)
next
  case False
  from assms(3) have win: "\<forall>f\<in>set (GetFeatures vlyr). feature_window_in_raster rb f"
    by simp
  from extent_window [OF assms(1,2) False win] obtain wg where
    wg: "bbox_to_pixel_offsets (GetGeoTransform rb) (GetExtent (GetFeatures vlyr)) = Inr wg"
      "window_in_raster rb wg"
      "\<forall>f\<in>set (GetFeatures vlyr). \<forall>wn.
          bbox_to_pixel_offsets (GetGeoTransform rb) (GetEnvelope f) = Inr wn \<longrightarrow>
          window_subset wn wg"
    by blast
  obtain X Y W H where xy: "wg = (X, Y, W, H)" by (cases wg)
  from wg(1,2) ReadAsArray_in_raster [of rb X Y W H] obtain arr where
    read: "read_source rb (GetExtent (GetFeatures vlyr)) [] =
             Inr ((wg, arr, new_gt (GetGeoTransform rb) wg), [wg])"
    by (simp add: read_source_def xy)
  have "\<exists>src r. read_source rb (GetEnvelope feat) reads = Inr (src, r) \<and>
          mask_and_count nodata_value src feat =
          mask_and_count nodata_value (wg, arr, new_gt (GetGeoTransform rb) wg) feat"
    if "feat \<in> set (GetFeatures vlyr)" for feat reads
  proof -
    from assms(3) that have "feature_window_in_raster rb feat" and g: "geometry_in_envelope feat"
      by simp_all
    then obtain wn where
      wn: "bbox_to_pixel_offsets (GetGeoTransform rb) (GetEnvelope feat) = Inr wn"
        "window_in_raster rb wn"
      by (auto elim: feature_window_in_rasterD)
    from wg(3) that wn(1) have sub: "window_subset wn wg"
      by blast
    from feature_modes_agree [OF assms(1,2) g wn wg(2) sub read] show ?thesis .
  qed
  then have "(case features_loop rb nodata_value None (GetFeatures vlyr) [] [] of
                Inl e \<Rightarrow> Inl e | Inr (s, r) \<Rightarrow> Inr s) =
             (case features_loop rb nodata_value
                     (Some (wg, arr, new_gt (GetGeoTransform rb) wg)) (GetFeatures vlyr) [] [wg] of
                Inl e \<Rightarrow> Inl e | Inr (s, r) \<Rightarrow> Inr s)"
    by (intro loops_agree) blast
  with read show ?thesis
    by (simp add: zonal_stats_def zonal_stats_io_global zonal_stats_io_local)
qed

theorem extent_modes_agree_witness:
  "0 < gt1 (GetGeoTransform (filled_raster north_up 10 10 21)) \<and>
   gt5 (GetGeoTransform (filled_raster north_up 10 10 21)) < 0 \<and>
   feature_window_in_raster (filled_raster north_up 10 10 21)
     (hydro_feature (rectangle 4 (hydro 40) (1 / 2, 3 / 2, 17 / 2, 19 / 2))) \<and>
   geometry_in_envelope (hydro_feature (rectangle 4 (hydro 40) (1 / 2, 3 / 2, 17 / 2, 19 / 2))) \<and>
   feature_window_in_raster (filled_raster north_up 10 10 21)
     (hydro_feature (rectangle 2 (hydro 20) (5 / 2, 7 / 2, 9 / 2, 11 / 2))) \<and>
   geometry_in_envelope (hydro_feature (rectangle 2 (hydro 20) (5 / 2, 7 / 2, 9 / 2, 11 / 2))) \<and>
   zonal_stats
     (Some (hydro_layer [rectangle 4 (hydro 40) (1 / 2, 3 / 2, 17 / 2, 19 / 2),
                         rectangle 2 (hydro 20) (5 / 2, 7 / 2, 9 / 2, 11 / 2)]))
     (Some (filled_raster north_up 10 10 21)) (Some 0) True =
   zonal_stats
     (Some (hydro_layer [rectangle 4 (hydro 40) (1 / 2, 3 / 2, 17 / 2, 19 / 2),
                         rectangle 2 (hydro 20) (5 / 2, 7 / 2, 9 / 2, 11 / 2)]))
     (Some (filled_raster north_up 10 10 21)) (Some 0) False"
proof -
  let ?rb = "filled_raster north_up 10 10 21"
  let ?f = "hydro_feature (rectangle 4 (hydro 40) (1 / 2, 3 / 2, 17 / 2, 19 / 2))"
  let ?g = "hydro_feature (rectangle 2 (hydro 20) (5 / 2, 7 / 2, 9 / 2, 11 / 2))"
  let ?vlyr = "hydro_layer [rectangle 4 (hydro 40) (1 / 2, 3 / 2, 17 / 2, 19 / 2),
                            rectangle 2 (hydro 20) (5 / 2, 7 / 2, 9 / 2, 11 / 2)]"
  have w: "0 < gt1 (GetGeoTransform ?rb)" and h: "gt5 (GetGeoTransform ?rb) < 0"
    by (simp_all add: example_defs)
  have f: "feature_window_in_raster ?rb ?f" "geometry_in_envelope ?f"
    by (simp_all add: feature_window_in_raster_def geometry_in_envelope_def window_in_raster_def
        bbox_to_pixel_offsets_def py_div_def py_int_def example_defs)
  have g: "feature_window_in_raster ?rb ?g" "geometry_in_envelope ?g"
    by (simp_all add: feature_window_in_raster_def geometry_in_envelope_def window_in_raster_def
        bbox_to_pixel_offsets_def py_div_def py_int_def example_defs)
  have l: "GetFeatures ?vlyr = [?f, ?g]"
    by (simp add: hydro_layer_def hydro_feature_def GetFeatures_def)
  have "\<forall>feat\<in>set (GetFeatures ?vlyr).
          feature_window_in_raster ?rb feat \<and> geometry_in_envelope feat"
    unfolding l using f g by simp
  from extent_modes_agree [OF w h this, of "Some 0"] w h f g show ?thesis
    by simp
qed

text \<open>
  Claim C5 as it is written fails on a south-up raster (positive pixel height, which the
  data model allows). Two features in different pixel rows each have a window of height
  one, so the local-extent run returns two records; the window of their common extent has
  the height \<open>- 2\<close>, and the global-extent run raises when it allocates the read buffer.
\<close>

theorem extent_modes_counterexample:
  "zonal_stats
     (Some (hydro_layer [rectangle 1 (hydro 10) (5 / 4, 15 / 4, 9 / 4, 11 / 4),
                         rectangle 2 (hydro 20) (5 / 4, 15 / 4, 21 / 4, 23 / 4)]))
     (Some (filled_raster south_up 10 10 21)) None True = Inl ValueError \<and>
   zonal_stats
     (Some (hydro_layer [rectangle 1 (hydro 10) (5 / 4, 15 / 4, 9 / 4, 11 / 4),
                         rectangle 2 (hydro 20) (5 / 4, 15 / 4, 21 / 4, 23 / 4)]))
     (Some (filled_raster south_up 10 10 21)) None False =
     Inr [\<lparr>FID = 1, HydroID = FInt 10, TotalPixels = 3,
           lulc_11 = 0, lulc_12 = 0, lulc_21 = 3, lulc_22 = 0, lulc_23 = 0, lulc_24 = 0,
           lulc_31 = 0, lulc_41 = 0, lulc_42 = 0, lulc_43 = 0, lulc_51 = 0, lulc_52 = 0,
           lulc_71 = 0, lulc_72 = 0, lulc_73 = 0, lulc_74 = 0, lulc_81 = 0, lulc_82 = 0,
           lulc_90 = 0, lulc_95 = 0\<rparr>,
          \<lparr>FID = 2, HydroID = FInt 20, TotalPixels = 3,
           lulc_11 = 0, lulc_12 = 0, lulc_21 = 3, lulc_22 = 0, lulc_23 = 0, lulc_24 = 0,
           lulc_31 = 0, lulc_41 = 0, lulc_42 = 0, lulc_43 = 0, lulc_51 = 0, lulc_52 = 0,
           lulc_71 = 0, lulc_72 = 0, lulc_73 = 0, lulc_74 = 0, lulc_81 = 0, lulc_82 = 0,
           lulc_90 = 0, lulc_95 = 0\<rparr>]"
  by (simp add: run_defs example_defs merge_envelope_def
      ma_count_def ma_eq_def np_count_nonzero_def upt_conv_Cons)

subsection \<open>A layer without the join key\<close>

lemma GetFeatures_defn:
  assumes "feat \<in> set (GetFeatures vlyr)"
  shows "GetDefnRef feat = GetLayerDefn vlyr"
  using assms by (auto simp: GetFeatures_def feature_of_def)

text \<open>
  Claim C9, as amended. When the layer has no field \<open>HydroID\<close>, so that every feature
  lacks it, and the layer has a feature, tabulating any feature raises KeyError and the
  run returns no sequence at all; it raises at the first feature, with KeyError when the
  window of that feature lies inside the raster (local-extent mode). A feature of a layer
  that has the field, with the field unset, does not raise: its record carries
  \<open>HydroID = None\<close>.
\<close>

theorem no_HydroID_field_aborts:
  assumes "''HydroID'' \<notin> set (GetLayerDefn vlyr)" and "rows vlyr \<noteq> []"
  shows "(\<forall>feat\<in>set (GetFeatures vlyr). \<forall>masked. feature_stats feat masked = Inl KeyError)
       \<and> (\<exists>e. zonal_stats (Some vlyr) rds nodata_value global_src_extent = Inl e)
       \<and> (feature_window_in_raster rb (hd (GetFeatures vlyr)) \<longrightarrow>
            zonal_stats (Some vlyr) (Some rb) nodata_value False = Inl KeyError)
       \<and> (\<forall>feat masked.
            ''HydroID'' \<in> set (GetDefnRef feat) \<and> attributes feat ''HydroID'' = None \<longrightarrow>
            (\<exists>fs. feature_stats feat masked = Inr fs \<and> HydroID fs = FNull))"
proof -
  have key: "feature_stats feat masked = Inl KeyError"
    if "feat \<in> set (GetFeatures vlyr)" for feat masked
    using GetFeatures_defn [OF that] assms(1) by (simp add: feature_stats_def GetField_def)
  from assms(2) obtain r rs where "rows vlyr = r # rs"
    by (cases "rows vlyr") auto
  then obtain f fs where feats: "GetFeatures vlyr = f # fs"
    by (simp add: GetFeatures_def)
  then have f: "f \<in> set (GetFeatures vlyr)"
    by simp
  have "''HydroID'' \<notin> set (GetDefnRef f)"
    using GetFeatures_defn [OF f] assms(1) by simp
  then have "\<exists>e. mask_and_count nodata_value src f = Inl e" for src
    by (rule mask_and_count_KeyError)
  with f have "\<exists>e. features_loop rb' nodata_value global_src (GetFeatures vlyr) [] reads = Inl e"
    for rb' global_src reads
    by (rule features_loop_Inl)
  then have run: "\<exists>e. zonal_stats (Some vlyr) rds nodata_value global_src_extent = Inl e"
    by (rule zonal_stats_Inl)
  have first: "zonal_stats (Some vlyr) (Some rb) nodata_value False = Inl KeyError"
    if "feature_window_in_raster rb (hd (GetFeatures vlyr))"
  proof -
    from that feats have "feature_window_in_raster rb f"
      by simp
    then obtain wn where
      wn: "bbox_to_pixel_offsets (GetGeoTransform rb) (GetEnvelope f) = Inr wn"
        "window_in_raster rb wn"
      by (rule feature_window_in_rasterD)
    obtain x1 y1 xsize ysize where xy: "wn = (x1, y1, xsize, ysize)"
      by (cases wn)
    let ?arr = "Some \<lparr>shape = [nat ysize, nat xsize],
                      buf = map (\<lambda>(j, i). pixel rb (x1 + int i) (y1 + int j))
                                (cell_indices xsize ysize)\<rparr>"
    have read: "read_source rb (GetEnvelope f) [] =
                  Inr ((wn, ?arr, new_gt (GetGeoTransform rb) wn), [wn])"
      using wn ReadAsArray_in_raster [of rb x1 y1 xsize ysize]
      by (simp add: read_source_def xy)
    from mask_and_count_window [of rb x1 y1 xsize ysize nodata_value f] wn(2)
    obtain m where
      "mask_and_count nodata_value (wn, ?arr, new_gt (GetGeoTransform rb) wn) f =
         feature_stats f m"
      unfolding xy by blast
    with key [OF f] have
      "mask_and_count nodata_value (wn, ?arr, new_gt (GetGeoTransform rb) wn) f = Inl KeyError"
      by simp
    with read show ?thesis
      by (simp add: zonal_stats_def zonal_stats_io_local feats)
  qed
  have unset: "\<exists>fs. feature_stats feat masked = Inr fs \<and> HydroID fs = FNull"
    if "''HydroID'' \<in> set (GetDefnRef feat) \<and> attributes feat ''HydroID'' = None"
    for feat masked
    using that by (simp add: feature_stats_def GetField_def)
  from key run first unset show ?thesis
    by blast
qed

theorem no_HydroID_field_aborts_witness:
  "''HydroID'' \<notin> set (GetLayerDefn
      \<lparr>GetLayerDefn = [''Name''],
       rows = [rectangle 4 Map.empty (1 / 4, 7 / 4, 33 / 4, 39 / 4),
               rectangle 2 Map.empty (9 / 4, 15 / 4, 17 / 4, 23 / 4)]\<rparr>) \<and>
   zonal_stats
     (Some \<lparr>GetLayerDefn = [''Name''],
            rows = [rectangle 4 Map.empty (1 / 4, 7 / 4, 33 / 4, 39 / 4),
                    rectangle 2 Map.empty (9 / 4, 15 / 4, 17 / 4, 23 / 4)]\<rparr>)
     (Some (filled_raster north_up 10 10 21)) None False = Inl KeyError"
proof -
  let ?vlyr = "\<lparr>GetLayerDefn = [''Name''],
                rows = [rectangle 4 Map.empty (1 / 4, 7 / 4, 33 / 4, 39 / 4),
                        rectangle 2 Map.empty (9 / 4, 15 / 4, 17 / 4, 23 / 4)]\<rparr>"
  let ?rb = "filled_raster north_up 10 10 21"
  have d: "''HydroID'' \<notin> set (GetLayerDefn ?vlyr)" and r: "rows ?vlyr \<noteq> []"
    by simp_all
  have w: "feature_window_in_raster ?rb (hd (GetFeatures ?vlyr))"
    by (simp add: feature_window_in_raster_def window_in_raster_def
        bbox_to_pixel_offsets_def py_div_def py_int_def example_defs)
  from no_HydroID_field_aborts [OF d r, where rb = ?rb and nodata_value = None] w d
  show ?thesis
    by blast
qed

text \<open>
  Claim C9 as it is written fails for a feature that lacks a value of \<open>HydroID\<close> in a
  layer that has the field: the second feature here has the field unset, the run does not
  raise, and it returns both records, the second with \<open>HydroID = None\<close>.
\<close>

theorem unset_HydroID_counterexample:
  "zonal_stats
     (Some (hydro_layer [rectangle 4 (hydro 40) (1 / 4, 7 / 4, 33 / 4, 39 / 4),
                         rectangle 2 Map.empty (9 / 4, 15 / 4, 17 / 4, 23 / 4)]))
     (Some (filled_raster north_up 10 10 21)) None False =
     Inr [\<lparr>FID = 4, HydroID = FInt 40, TotalPixels = 4,
           lulc_11 = 0, lulc_12 = 0, lulc_21 = 4, lulc_22 = 0, lulc_23 = 0, lulc_24 = 0,
           lulc_31 = 0, lulc_41 = 0, lulc_42 = 0, lulc_43 = 0, lulc_51 = 0, lulc_52 = 0,
           lulc_71 = 0, lulc_72 = 0, lulc_73 = 0, lulc_74 = 0, lulc_81 = 0, lulc_82 = 0,
           lulc_90 = 0, lulc_95 = 0\<rparr>,
          \<lparr>FID = 2, HydroID = FNull, TotalPixels = 4,
           lulc_11 = 0, lulc_12 = 0, lulc_21 = 4, lulc_22 = 0, lulc_23 = 0, lulc_24 = 0,
           lulc_31 = 0, lulc_41 = 0, lulc_42 = 0, lulc_43 = 0, lulc_51 = 0, lulc_52 = 0,
           lulc_71 = 0, lulc_72 = 0, lulc_73 = 0, lulc_74 = 0, lulc_81 = 0, lulc_82 = 0,
           lulc_90 = 0, lulc_95 = 0\<rparr>]"
  by (simp add: run_defs example_defs ma_count_def ma_eq_def np_count_nonzero_def upt_conv_Cons)

end
